theory Spec2Isabelle
  imports Complex_Main
begin

section \<open>The video processor (services/VideoProcessor.js)\<close>

text \<open>
  The class \<open>VideoProcessor\<close> drives external tools (ffprobe, ffmpeg) and the local file
  system. The embedding makes these explicit:
  \<^item> the file system is a map from paths to file sizes, threaded through every method
    together with the ordered list of external effects performed so far;
  \<^item> what the tools and the Node library functions answer is a parameter, the
    \<open>world\<close>; every theorem holds for all worlds;
  \<^item> a promise is modelled by its outcome: resolved, rejected, or an exception thrown
    inside an asynchronous callback, which no promise receives.

  JavaScript numbers are IEEE doubles. A finite double is the rational it denotes. The
  times that \<open>splitVideo\<close> computes are rounded after every operation, as the
  processor does (\<open>fl\<close> below). A file size in MB is not rounded: a size below
  \<open>2^53\<close> bytes divided by \<open>2^20\<close> is a double, and the quotient by the
  ceiling is then so far from the next integer that rounding does not change its
  \<open>Math.ceil\<close>. \<open>NaN\<close> and the infinities are separate values where the code can
  produce them.
\<close>

subsection \<open>JavaScript values and library functions\<close>

type_synonym path = string

datatype jsvalue = Num rat | PosInfinity | NegInfinity | NaN | Other string

datatype json =
    JNull
  | JBool bool
  | JNum rat
  | JStr string
  | JArr "json list"
  | JObj "(string \<times> json) list"

datatype 'a outcome = Resolved 'a | Rejected string | Uncaught string

text \<open>\<open>String(x)\<close> for a value that is a string or \<open>undefined\<close>.\<close>

definition ToString :: "string option \<Rightarrow> string" where
  "ToString v = (case v of None \<Rightarrow> ''undefined'' | Some s \<Rightarrow> s)"

text \<open>
  \<open>parseInt(s)\<close> with no radix: leading white space is dropped, then an optional sign,
  then \<open>0x\<close> or \<open>0X\<close> selects radix 16 (otherwise 10), and the longest prefix of
  digits of that radix is the number; with no digit the result is \<open>NaN\<close>, here
  \<open>None\<close>. Strings are ASCII here, so the white space is tab, LF, VT, FF, CR and space.
\<close>

definition is_space :: "char \<Rightarrow> bool" where
  "is_space c = (of_char c \<in> {9, 10, 11, 12, 13, 32 :: nat})"

definition is_digit :: "char \<Rightarrow> bool" where
  "is_digit c = (48 \<le> (of_char c :: nat) \<and> (of_char c :: nat) \<le> 57)"

definition digit_val :: "nat \<Rightarrow> char \<Rightarrow> nat option" where
  "digit_val radix c =
     (let k = (of_char c :: nat);
          v = (if 48 \<le> k \<and> k \<le> 57 then Some (k - 48)
               else if 97 \<le> k \<and> k \<le> 122 then Some (k - 87)
               else if 65 \<le> k \<and> k \<le> 90 then Some (k - 55)
               else None)
      in case v of None \<Rightarrow> None | Some d \<Rightarrow> if d < radix then Some d else None)"

fun digits_prefix :: "nat \<Rightarrow> string \<Rightarrow> nat list" where
  "digits_prefix radix [] = []"
| "digits_prefix radix (c # cs) =
     (case digit_val radix c of None \<Rightarrow> [] | Some d \<Rightarrow> d # digits_prefix radix cs)"

definition number_of_digits :: "nat \<Rightarrow> nat list \<Rightarrow> nat" where
  "number_of_digits radix ds = foldl (\<lambda>a d. a * radix + d) 0 ds"

definition strip_sign :: "string \<Rightarrow> int \<times> string" where
  "strip_sign s =
     (case s of
        c # r \<Rightarrow> if c = CHR ''-'' then (-1, r) else if c = CHR ''+'' then (1, r) else (1, s)
      | [] \<Rightarrow> (1, s))"

definition strip_radix :: "string \<Rightarrow> nat \<times> string" where
  "strip_radix s =
     (case s of
        c # d # r \<Rightarrow>
          if c = CHR ''0'' \<and> (d = CHR ''x'' \<or> d = CHR ''X'') then (16, r) else (10, s)
      | _ \<Rightarrow> (10, s))"

definition parseInt :: "string \<Rightarrow> int option" where
  "parseInt s =
     (let (sign, s2) = strip_sign (dropWhile is_space s);
          (radix, s3) = strip_radix s2;
          ds = digits_prefix radix s3
      in if ds = [] then None else Some (sign * int (number_of_digits radix ds)))"

text \<open>\<open>x || d\<close> for a number \<open>x\<close>: \<open>NaN\<close> and \<open>0\<close> are falsy.\<close>

definition or_number :: "int option \<Rightarrow> int \<Rightarrow> int" where
  "or_number x d = (case x of None \<Rightarrow> d | Some n \<Rightarrow> if n = 0 then d else n)"

text \<open>\<open>x || d\<close> for a string or \<open>undefined\<close>: \<open>undefined\<close> and \<open>''\<close> are falsy.\<close>

definition or_string :: "string option \<Rightarrow> string \<Rightarrow> string" where
  "or_string x d = (case x of None \<Rightarrow> d | Some s \<Rightarrow> if s = [] then d else s)"

text \<open>The decimal numeral of a natural number, as template literals print it.\<close>

definition digit_char :: "nat \<Rightarrow> char" where
  "digit_char d = ''0123456789'' ! d"

fun decimal :: "nat \<Rightarrow> string" where
  "decimal n =
     (if n < 10 then [digit_char n] else decimal (n div 10) @ [digit_char (n mod 10)])"

declare decimal.simps [simp del]

subsection \<open>Double precision\<close>

text \<open>
  \<open>fl x\<close> is the double nearest to \<open>x\<close>: 53 significant bits, ties to the even
  significand. The exponent range is not modelled (no overflow, no subnormal numbers);
  the times of a video are far inside it.
\<close>

fun bit_length :: "nat \<Rightarrow> nat" where
  "bit_length n = (if n = 0 then 0 else Suc (bit_length (n div 2)))"

declare bit_length.simps [simp del]

text \<open>The \<open>e\<close> with \<open>2^e \<le> x < 2^(e + 1)\<close>, for \<open>x > 0\<close>.\<close>

definition exponent :: "rat \<Rightarrow> int" where
  "exponent x =
     (if 1 \<le> x then int (bit_length (nat \<lfloor>x\<rfloor>)) - 1
      else - int (bit_length (nat (\<lceil>1 / x\<rceil> - 1))))"

definition round_half_even :: "rat \<Rightarrow> int" where
  "round_half_even y =
     (let f = \<lfloor>y\<rfloor>; d = y - of_int f
      in if d < 1 / 2 then f else if 1 / 2 < d then f + 1 else if even f then f else f + 1)"

definition ulp :: "rat \<Rightarrow> rat" where
  "ulp x = power_int 2 (exponent \<bar>x\<bar> - 52)"

definition fl :: "rat \<Rightarrow> rat" where
  "fl x = (if x = 0 then 0 else of_int (round_half_even (x / ulp x)) * ulp x)"

subsection \<open>The file system, the effects and the world\<close>

datatype event =
    Ffprobe path
  | EnsureDir path
  | Screenshots path int path string
  | Encode path json path
  | ExtractSegment path path "rat option" "rat option"
  | Remove path
  | Warn string

record state =
  files :: "path \<rightharpoonup> nat"
  trace :: "event list"

text \<open>
  What ffprobe reports. A duration that is not a number (absent, or \<open>N/A\<close>) is
  \<open>None\<close>: \<open>parseFloat\<close> makes \<open>NaN\<close> of it.
\<close>

record stream =
  codec_type :: string
  codec_name :: "string option"
  width :: "nat option"
  height :: "nat option"
  r_frame_rate :: "string option"
  channels :: "nat option"
  sample_rate :: "nat option"

record metadata =
  streams :: "stream list"
  format_duration :: "rat option"
  format_size :: "nat option"
  format_bit_rate :: "nat option"

text \<open>
  The world answers for everything outside the class. A tool that ends well has written
  its output file (\<open>Some size\<close>) or has written nothing (\<open>None\<close>); a tool that
  fails reports a message and leaves the files as they were. Each answer may depend on
  the state in which the call is made.
\<close>

record world =
  readFileSync :: "path \<Rightarrow> string option"
  JSON_parse :: "string \<Rightarrow> json option"
  path_parse_name :: "string \<Rightarrow> string"
  path_join :: "string \<Rightarrow> string \<Rightarrow> path"
  path_basename :: "path \<Rightarrow> string"
  ffprobe :: "state \<Rightarrow> path \<Rightarrow> string + metadata"
  js_eval :: "string \<Rightarrow> string + jsvalue"
  ensureDir :: "state \<Rightarrow> path \<Rightarrow> string option"
  screenshots :: "state \<Rightarrow> path \<Rightarrow> int \<Rightarrow> path \<Rightarrow> string \<Rightarrow> string + nat option"
  encode :: "state \<Rightarrow> path \<Rightarrow> json \<Rightarrow> path \<Rightarrow> string + nat option"
  extractSegment :: "state \<Rightarrow> path \<Rightarrow> path \<Rightarrow> rat option \<Rightarrow> rat option \<Rightarrow> string + nat option"
  stat_message :: "state \<Rightarrow> path \<Rightarrow> string"
  fs_remove :: "state \<Rightarrow> path \<Rightarrow> string option"

definition emit :: "event \<Rightarrow> state \<Rightarrow> state" where
  "emit e s = s\<lparr>trace := trace s @ [e]\<rparr>"

definition write_file :: "path \<Rightarrow> nat option \<Rightarrow> state \<Rightarrow> state" where
  "write_file p written s =
     (case written of None \<Rightarrow> s | Some n \<Rightarrow> s\<lparr>files := (files s)(p \<mapsto> n)\<rparr>)"

subsection \<open>Construction and the preset\<close>

type_synonym env = "string \<rightharpoonup> string"

record processor =
  maxVideoSizeMB :: int
  frameCaptureTime :: int
  presetPath :: path
  preset :: json

definition default_preset :: json where
  "default_preset = JObj
     [(''videoCodec'', JStr ''h264''),
      (''audioCodec'', JStr ''aac''),
      (''resolution'', JStr ''1920x1080''),
      (''bitrate'', JNum 974),
      (''fps'', JNum (2997 / 100)),
      (''audioChannels'', JNum 2),
      (''audioSampleRate'', JNum 48000)]"

text \<open>
  \<open>loadPreset\<close>: the file is read and parsed; whatever either step throws is caught,
  a warning is printed and the default preset is returned.
\<close>

definition loadPreset :: "world \<Rightarrow> path \<Rightarrow> state \<Rightarrow> json \<times> state" where
  "loadPreset w presetPath_this s =
     (case readFileSync w presetPath_this of
        None \<Rightarrow> (default_preset, emit (Warn ''Failed to load video preset, using defaults'') s)
      | Some presetData \<Rightarrow>
          (case JSON_parse w presetData of
             None \<Rightarrow> (default_preset, emit (Warn ''Failed to load video preset, using defaults'') s)
           | Some v \<Rightarrow> (v, s)))"

definition constructor :: "env \<Rightarrow> world \<Rightarrow> state \<Rightarrow> processor \<times> state" where
  "constructor env w s =
     (let maxMB = or_number (parseInt (ToString (env ''MAX_VIDEO_SIZE_MB''))) 98;
          capture = or_number (parseInt (ToString (env ''FRAME_CAPTURE_TIME''))) 2;
          ppath = or_string (env ''VIDEO_PRESET_PATH'') ''./video-preset.json'';
          (pre, s') = loadPreset w ppath s
      in (\<lparr>maxVideoSizeMB = maxMB, frameCaptureTime = capture, presetPath = ppath, preset = pre\<rparr>, s'))"

subsection \<open>Promises\<close>

text \<open>
  \<open>andThen\<close> is \<open>await\<close> followed by the rest of an async function: a rejection
  or an uncaught exception ends the function there, with the state reached so far.
\<close>

definition andThen ::
  "'a outcome \<times> state \<Rightarrow> ('a \<Rightarrow> state \<Rightarrow> 'b outcome \<times> state) \<Rightarrow> 'b outcome \<times> state" where
  "andThen r k =
     (case r of
        (Resolved v, s) \<Rightarrow> k v s
      | (Rejected e, s) \<Rightarrow> (Rejected e, s)
      | (Uncaught e, s) \<Rightarrow> (Uncaught e, s))"

text \<open>\<open>try { ... } catch (error) { throw new Error(prefix + error.message) }\<close>\<close>

definition rethrow :: "string \<Rightarrow> 'a outcome \<times> state \<Rightarrow> 'a outcome \<times> state" where
  "rethrow prefix r =
     (case r of
        (Rejected e, s) \<Rightarrow> (Rejected (prefix @ e), s)
      | other \<Rightarrow> other)"

subsection \<open>Analysis\<close>

record videoInfo =
  duration :: "rat option"
  size_info :: "nat option"
  bitrate :: "nat option"
  videoCodec :: "string option"
  audioCodec :: "string option"
  resolution :: string
  fps :: jsvalue
  audioChannels :: "nat option"
  audioSampleRate :: "nat option"

text \<open>
  \<open>eval\<close> on the program texts whose value is plain arithmetic: a decimal integer
  literal (no leading zero, which would make it octal) and the quotient of two of them.
  Division by zero is not an error in JavaScript: it gives \<open>Infinity\<close>, or \<open>NaN\<close>
  for \<open>0/0\<close>. What \<open>eval\<close> does with any other text (its value, or the exception
  it throws) is the world's answer.
\<close>

definition decimal_literal :: "string \<Rightarrow> nat option" where
  "decimal_literal s =
     (if s \<noteq> [] \<and> list_all is_digit s \<and> (hd s \<noteq> CHR ''0'' \<or> length s = 1)
      then Some (number_of_digits 10 (digits_prefix 10 s)) else None)"

definition eval_js :: "world \<Rightarrow> string \<Rightarrow> string + jsvalue" where
  "eval_js w src =
     (case decimal_literal src of
        Some n \<Rightarrow> Inr (Num (of_nat n))
      | None \<Rightarrow>
          (let a = takeWhile (\<lambda>c. c \<noteq> CHR ''/'') src;
               b = drop (Suc (length a)) src
           in case (decimal_literal a, decimal_literal b) of
                (Some n, Some d) \<Rightarrow>
                  if d \<noteq> 0 then Inr (Num (of_nat n / of_nat d))
                  else if n = 0 then Inr NaN else Inr PosInfinity
              | _ \<Rightarrow> js_eval w src))"

text \<open>\<open>${x}\<close> for a number or \<open>undefined\<close>.\<close>

definition template :: "nat option \<Rightarrow> string" where
  "template v = (case v of None \<Rightarrow> ''undefined'' | Some n \<Rightarrow> decimal n)"

text \<open>
  \<open>analyzeVideo\<close>. The promise is rejected when ffprobe reports an error. The record
  is built inside ffprobe's callback, so an exception thrown by \<open>eval\<close> there reaches
  no promise.
\<close>

definition analyzeVideo :: "world \<Rightarrow> path \<Rightarrow> state \<Rightarrow> videoInfo outcome \<times> state" where
  "analyzeVideo w inputPath s =
     (let s1 = emit (Ffprobe inputPath) s in
      case ffprobe w s inputPath of
        Inl err \<Rightarrow> (Rejected (''Failed to analyze video: '' @ err), s1)
      | Inr md \<Rightarrow>
          (let videoStream = find (\<lambda>st. codec_type st = ''video'') (streams md);
               audioStream = find (\<lambda>st. codec_type st = ''audio'') (streams md)
           in case eval_js w (or_string (Option.bind videoStream r_frame_rate) ''0'') of
                Inl exn \<Rightarrow> (Uncaught exn, s1)
              | Inr rate \<Rightarrow>
                  (Resolved
                     \<lparr>duration = format_duration md,
                      size_info = format_size md,
                      bitrate = format_bit_rate md,
                      videoCodec = Option.bind videoStream codec_name,
                      audioCodec = Option.bind audioStream codec_name,
                      resolution = template (Option.bind videoStream width) @ ''x''
                                   @ template (Option.bind videoStream height),
                      fps = rate,
                      audioChannels = Option.bind audioStream channels,
                      audioSampleRate = Option.bind audioStream sample_rate\<rparr>, s1)))"

subsection \<open>Thumbnail and transcoding\<close>

definition outputDir_of :: "env \<Rightarrow> string" where
  "outputDir_of env = or_string (env ''TEMP_DIR'') ''temp''"

text \<open>
  \<open>captureFrame\<close>. The time stamp handed to ffmpeg is \<open>this.frameCaptureTime\<close>;
  the library writes the image to the folder joined with the file name.
\<close>

definition captureFrame ::
  "processor \<Rightarrow> env \<Rightarrow> world \<Rightarrow> path \<Rightarrow> string \<Rightarrow> state \<Rightarrow> path outcome \<times> state" where
  "captureFrame p env w inputPath originalFileName s =
     (let outputDir = outputDir_of env;
          thumbnailName = path_parse_name w originalFileName @ ''_thumbnail.jpg'';
          thumbnailPath = path_join w outputDir thumbnailName;
          s1 = emit (EnsureDir outputDir) s
      in case ensureDir w s outputDir of
           Some err \<Rightarrow> (Rejected err, s1)
         | None \<Rightarrow>
             (let s2 = emit (Screenshots inputPath (frameCaptureTime p) outputDir thumbnailName) s1
              in case screenshots w s1 inputPath (frameCaptureTime p) outputDir thumbnailName of
                   Inl err \<Rightarrow> (Rejected (''Failed to capture frame: '' @ err), s2)
                 | Inr written \<Rightarrow> (Resolved thumbnailPath, write_file thumbnailPath written s2)))"

text \<open>
  \<open>compressVideo\<close>. Reading \<open>this.preset.videoCodec\<close> throws inside the promise's
  executor when the preset file held \<open>null\<close>; every other preset goes to ffmpeg as it is.
\<close>

definition compressVideo ::
  "processor \<Rightarrow> env \<Rightarrow> world \<Rightarrow> path \<Rightarrow> string \<Rightarrow> state \<Rightarrow> path outcome \<times> state" where
  "compressVideo p env w inputPath originalFileName s =
     (let outputDir = outputDir_of env;
          outputName = path_parse_name w originalFileName @ ''_processed.mp4'';
          outputPath = path_join w outputDir outputName;
          s1 = emit (EnsureDir outputDir) s
      in case ensureDir w s outputDir of
           Some err \<Rightarrow> (Rejected err, s1)
         | None \<Rightarrow>
             if preset p = JNull
             then (Rejected ''Cannot read properties of null (reading 'videoCodec')'', s1)
             else
               (let s2 = emit (Encode inputPath (preset p) outputPath) s1
                in case encode w s1 inputPath (preset p) outputPath of
                     Inl err \<Rightarrow> (Rejected (''Failed to compress video: '' @ err), s2)
                   | Inr written \<Rightarrow> (Resolved outputPath, write_file outputPath written s2)))"

subsection \<open>Size check and splitting\<close>

datatype artifact_type = video | thumbnail

record artifact =
  art_path :: path
  art_name :: string
  art_type :: artifact_type
  art_size :: nat
  part :: "nat option"
  totalParts :: "int option"

definition getFileSize :: "world \<Rightarrow> path \<Rightarrow> state \<Rightarrow> nat outcome \<times> state" where
  "getFileSize w filePath s =
     (case files s filePath of
        Some n \<Rightarrow> (Resolved n, s)
      | None \<Rightarrow> (Rejected (''Failed to get file size: '' @ stat_message w s filePath), s))"

text \<open>
  A time in seconds is \<open>None\<close> when it is not a finite number. \<open>parseFloat\<close>
  of the reported duration is its double; \<open>i * t\<close>, \<open>t / n\<close> and \<open>a - b\<close>
  on doubles:
\<close>

definition parseFloat :: "rat option \<Rightarrow> rat option" where
  "parseFloat t = map_option fl t"

definition times_time :: "nat \<Rightarrow> rat option \<Rightarrow> rat option" where
  "times_time i t = map_option (\<lambda>d. fl (of_nat i * d)) t"

definition divide_time :: "rat option \<Rightarrow> int \<Rightarrow> rat option" where
  "divide_time t n = (if n = 0 then None else map_option (\<lambda>d. fl (d / of_int n)) t)"

definition minus_time :: "rat option \<Rightarrow> rat option \<Rightarrow> rat option" where
  "minus_time a b = (case (a, b) of (Some x, Some y) \<Rightarrow> Some (fl (x - y)) | _ \<Rightarrow> None)"

definition extractVideoSegment ::
  "world \<Rightarrow> path \<Rightarrow> path \<Rightarrow> rat option \<Rightarrow> rat option \<Rightarrow> state \<Rightarrow> path outcome \<times> state" where
  "extractVideoSegment w inputPath outputPath startTime endTime s =
     (let d = minus_time endTime startTime;
          s1 = emit (ExtractSegment inputPath outputPath startTime d) s
      in case extractSegment w s inputPath outputPath startTime d of
           Inl err \<Rightarrow> (Rejected (''Failed to extract video segment: '' @ err), s1)
         | Inr written \<Rightarrow> (Resolved outputPath, write_file outputPath written s1))"

text \<open>The loop of \<open>splitVideo\<close>, from index \<open>i\<close> on.\<close>

function split_loop ::
  "world \<Rightarrow> path \<Rightarrow> string \<Rightarrow> string \<Rightarrow> rat option \<Rightarrow> int \<Rightarrow> nat \<Rightarrow> artifact list \<Rightarrow> state
   \<Rightarrow> artifact list outcome \<times> state" where
  "split_loop w videoPath outputDir baseName durationPerPart partsNeeded i parts s =
     (if int i < partsNeeded then
        (let startTime = times_time i durationPerPart;
             endTime = times_time (i + 1) durationPerPart;
             partName = baseName @ ''_part'' @ decimal (i + 1) @ ''.mp4'';
             partPath = path_join w outputDir partName
         in case extractVideoSegment w videoPath partPath startTime endTime s of
              (Resolved _, s1) \<Rightarrow>
                (case getFileSize w partPath s1 of
                   (Resolved partSize, s2) \<Rightarrow>
                     split_loop w videoPath outputDir baseName durationPerPart partsNeeded (Suc i)
                       (parts @ [\<lparr>art_path = partPath, art_name = partName, art_type = video,
                                  art_size = partSize, part = Some (i + 1),
                                  totalParts = Some partsNeeded\<rparr>]) s2
                 | (Rejected e, s2) \<Rightarrow> (Rejected e, s2)
                 | (Uncaught e, s2) \<Rightarrow> (Uncaught e, s2))
            | (Rejected e, s1) \<Rightarrow> (Rejected e, s1)
            | (Uncaught e, s1) \<Rightarrow> (Uncaught e, s1))
      else (Resolved parts, s))"
  by pat_completeness auto
termination
  by (relation "measure (\<lambda>(w, videoPath, outputDir, baseName, d, partsNeeded, i, parts, s).
        nat (partsNeeded - int i))") auto

declare split_loop.simps [simp del]

text \<open>
  \<open>splitVideo\<close>. \<open>this.maxVideoSizeMB\<close> is never \<open>0\<close> (the constructor replaces
  \<open>0\<close> by 98), so the quotient below is a division by a non-zero integer.
\<close>

definition splitVideo ::
  "processor \<Rightarrow> env \<Rightarrow> world \<Rightarrow> path \<Rightarrow> string \<Rightarrow> state \<Rightarrow> artifact list outcome \<times> state" where
  "splitVideo p env w videoPath originalFileName s =
     andThen (analyzeVideo w videoPath s) (\<lambda>info s1.
     andThen (getFileSize w videoPath s1) (\<lambda>fileSize s2.
       (let fileSizeMB = (of_nat fileSize :: rat) / (1024 * 1024);
            partsNeeded = \<lceil>fileSizeMB / of_int (maxVideoSizeMB p)\<rceil>;
            durationPerPart = divide_time (parseFloat (duration info)) partsNeeded;
            outputDir = outputDir_of env;
            baseName = path_parse_name w originalFileName
        in andThen (split_loop w videoPath outputDir baseName durationPerPart partsNeeded 0 [] s2)
             (\<lambda>parts s3.
                (case fs_remove w s3 videoPath of
                   Some err \<Rightarrow> (Rejected err, emit (Remove videoPath) s3)
                 | None \<Rightarrow>
                     (Resolved parts,
                      emit (Remove videoPath) (s3\<lparr>files := (files s3)(videoPath := None)\<rparr>)))))))"

definition checkAndSplitVideo ::
  "processor \<Rightarrow> env \<Rightarrow> world \<Rightarrow> path \<Rightarrow> string \<Rightarrow> state \<Rightarrow> artifact list outcome \<times> state" where
  "checkAndSplitVideo p env w videoPath originalFileName s =
     andThen (getFileSize w videoPath s) (\<lambda>fileSize s1.
       (let fileSizeMB = (of_nat fileSize :: rat) / (1024 * 1024)
        in if fileSizeMB \<le> of_int (maxVideoSizeMB p)
           then (Resolved [\<lparr>art_path = videoPath, art_name = path_basename w videoPath,
                            art_type = video, art_size = fileSize, part = None,
                            totalParts = None\<rparr>], s1)
           else splitVideo p env w videoPath originalFileName s1))"

subsection \<open>The job\<close>

definition processVideo ::
  "processor \<Rightarrow> env \<Rightarrow> world \<Rightarrow> path \<Rightarrow> string \<Rightarrow> state \<Rightarrow> artifact list outcome \<times> state" where
  "processVideo p env w inputPath originalFileName s =
     rethrow ''Failed to process video: ''
       (andThen (analyzeVideo w inputPath s) (\<lambda>info s1.
        andThen (captureFrame p env w inputPath originalFileName s1) (\<lambda>thumbnailPath s2.
        andThen (compressVideo p env w inputPath originalFileName s2) (\<lambda>processedPath s3.
        andThen (checkAndSplitVideo p env w processedPath originalFileName s3) (\<lambda>processedVideos s4.
        andThen (getFileSize w thumbnailPath s4) (\<lambda>thumbnailSize s5.
          (Resolved
             (processedVideos @
                [\<lparr>art_path = thumbnailPath,
                  art_name = path_parse_name w originalFileName @ ''_thumbnail.jpg'',
                  art_type = thumbnail, art_size = thumbnailSize, part = None,
                  totalParts = None\<rparr>]), s5)))))))"

subsection \<open>Predicates of the properties\<close>

text \<open>
  An environment variable is non-numeric when, after leading white space and an optional
  sign, it does not go on with a decimal digit.
\<close>

definition non_numeric :: "string \<Rightarrow> bool" where
  "non_numeric s = (case snd (strip_sign (dropWhile is_space s)) of [] \<Rightarrow> True | c # _ \<Rightarrow> \<not> is_digit c)"

definition unset_or_non_numeric :: "string option \<Rightarrow> bool" where
  "unset_or_non_numeric v = (case v of None \<Rightarrow> True | Some s \<Rightarrow> non_numeric s)"

text \<open>
  The name of part \<open>k\<close>, counted from 1; the request that the loop of
  \<open>splitVideo\<close> sends to ffmpeg at index \<open>i\<close>, counted from 0; the artifact
  that describes part \<open>k\<close>.
\<close>

definition part_name :: "string \<Rightarrow> nat \<Rightarrow> string" where
  "part_name baseName k = baseName @ ''_part'' @ decimal k @ ''.mp4''"

definition segment_event :: "world \<Rightarrow> path \<Rightarrow> string \<Rightarrow> string \<Rightarrow> rat option \<Rightarrow> nat \<Rightarrow> event" where
  "segment_event w videoPath outputDir baseName durationPerPart i =
     ExtractSegment videoPath (path_join w outputDir (part_name baseName (i + 1)))
       (times_time i durationPerPart)
       (minus_time (times_time (i + 1) durationPerPart) (times_time i durationPerPart))"

definition is_part :: "world \<Rightarrow> string \<Rightarrow> string \<Rightarrow> int \<Rightarrow> nat \<Rightarrow> artifact \<Rightarrow> bool" where
  "is_part w outputDir baseName partsNeeded k a \<longleftrightarrow>
     art_name a = part_name baseName k \<and>
     art_path a = path_join w outputDir (part_name baseName k) \<and>
     art_type a = video \<and> part a = Some k \<and> totalParts a = Some partsNeeded"

text \<open>
  The effects of the split step that starts in \<open>s\<close> on the transcoded file: none, or
  a probe followed by segment requests in index order. The removal of the file can only
  follow the requests for all the parts that its size in \<open>s\<close> asks for. The first
  five effects of a job, in the order of \<open>processVideo\<close>.
\<close>

definition split_events ::
  "processor \<Rightarrow> world \<Rightarrow> state \<Rightarrow> path \<Rightarrow> string \<Rightarrow> string \<Rightarrow> event list \<Rightarrow> bool" where
  "split_events p w s videoPath outputDir baseName evs \<longleftrightarrow>
     evs = [] \<or>
     (\<exists>dpp j tl. evs = Ffprobe videoPath #
          map (segment_event w videoPath outputDir baseName dpp) [0..<j] @ tl \<and>
        (tl = [] \<or>
         tl = [Remove videoPath] \<and>
         (\<exists>sz. files s videoPath = Some sz \<and>
            j = nat \<lceil>(of_nat sz :: rat) / (1024 * 1024) / of_int (maxVideoSizeMB p)\<rceil>)))"

definition job_events :: "processor \<Rightarrow> env \<Rightarrow> world \<Rightarrow> path \<Rightarrow> string \<Rightarrow> event list" where
  "job_events p env w inputPath originalFileName =
     [Ffprobe inputPath,
      EnsureDir (outputDir_of env),
      Screenshots inputPath (frameCaptureTime p) (outputDir_of env)
        (path_parse_name w originalFileName @ ''_thumbnail.jpg''),
      EnsureDir (outputDir_of env),
      Encode inputPath (preset p)
        (path_join w (outputDir_of env) (path_parse_name w originalFileName @ ''_processed.mp4''))]"

text \<open>
  What one call does, as the world answers it in the state in which it is made: whether it
  succeeded, and the state after it. Replaying a list of calls from a state gives the
  state that they alone produce.
\<close>

fun event_ok :: "world \<Rightarrow> state \<Rightarrow> event \<Rightarrow> bool" where
  "event_ok w s (Ffprobe f) = (case ffprobe w s f of Inl err \<Rightarrow> False | Inr md \<Rightarrow> True)"
| "event_ok w s (EnsureDir d) = (ensureDir w s d = None)"
| "event_ok w s (Screenshots i t d n) =
     (case screenshots w s i t d n of Inl err \<Rightarrow> False | Inr written \<Rightarrow> True)"
| "event_ok w s (Encode i c out) =
     (case encode w s i c out of Inl err \<Rightarrow> False | Inr written \<Rightarrow> True)"
| "event_ok w s (ExtractSegment i out a d) =
     (case extractSegment w s i out a d of Inl err \<Rightarrow> False | Inr written \<Rightarrow> True)"
| "event_ok w s (Remove f) = (fs_remove w s f = None)"
| "event_ok w s (Warn m) = True"

fun apply_event :: "world \<Rightarrow> state \<Rightarrow> event \<Rightarrow> state" where
  "apply_event w s (Screenshots i t d n) =
     (case screenshots w s i t d n of
        Inl err \<Rightarrow> emit (Screenshots i t d n) s
      | Inr written \<Rightarrow> write_file (path_join w d n) written (emit (Screenshots i t d n) s))"
| "apply_event w s (Encode i c out) =
     (case encode w s i c out of
        Inl err \<Rightarrow> emit (Encode i c out) s
      | Inr written \<Rightarrow> write_file out written (emit (Encode i c out) s))"
| "apply_event w s (ExtractSegment i out a d) =
     (case extractSegment w s i out a d of
        Inl err \<Rightarrow> emit (ExtractSegment i out a d) s
      | Inr written \<Rightarrow> write_file out written (emit (ExtractSegment i out a d) s))"
| "apply_event w s (Remove f) =
     (case fs_remove w s f of
        Some err \<Rightarrow> emit (Remove f) s
      | None \<Rightarrow> emit (Remove f) (s\<lparr>files := (files s)(f := None)\<rparr>))"
| "apply_event w s e = emit e s"

fun replay :: "world \<Rightarrow> state \<Rightarrow> event list \<Rightarrow> state" where
  "replay w s [] = s"
| "replay w s (e # es) = replay w (apply_event w s e) es"

fun all_ok :: "world \<Rightarrow> state \<Rightarrow> event list \<Rightarrow> bool" where
  "all_ok w s [] = True"
| "all_ok w s (e # es) = (event_ok w s e \<and> all_ok w (apply_event w s e) es)"

text \<open>
  A step that starts in \<open>s\<close> and ends in \<open>s'\<close> with the outcome \<open>r\<close> has run
  the calls \<open>evs\<close>: the state is theirs, every call but the last succeeded, and the
  last one too when the step resolved.
\<close>

definition ran :: "world \<Rightarrow> state \<Rightarrow> event list \<Rightarrow> 'a outcome \<Rightarrow> state \<Rightarrow> bool" where
  "ran w s evs r s' \<longleftrightarrow>
     s' = replay w s evs \<and> all_ok w s (butlast evs) \<and> ((\<exists>v. r = Resolved v) \<longrightarrow> all_ok w s evs)"

subsection \<open>A concrete world\<close>

text \<open>
  A world in which every tool succeeds: the probe reports a 90 second video, the encoder
  writes 250 MB, every segment is 90 MB and the image 20 kB.
\<close>

definition demo_stream :: stream where
  "demo_stream = \<lparr>codec_type = ''video'', codec_name = Some ''h264'', width = Some 1920,
     height = Some 1080, r_frame_rate = Some ''30000/1001'', channels = None, sample_rate = None\<rparr>"

definition demo_metadata :: metadata where
  "demo_metadata = \<lparr>streams = [demo_stream], format_duration = Some 90,
     format_size = Some 300000000, format_bit_rate = Some 974000\<rparr>"

definition demo_world :: world where
  "demo_world = \<lparr>readFileSync = (\<lambda>f. None),
     JSON_parse = (\<lambda>t. None),
     path_parse_name = takeWhile (\<lambda>c. c \<noteq> CHR ''.''),
     path_join = (\<lambda>d n. d @ ''/'' @ n),
     path_basename = (\<lambda>f. rev (takeWhile (\<lambda>c. c \<noteq> CHR ''/'') (rev f))),
     ffprobe = (\<lambda>s f. Inr demo_metadata),
     js_eval = (\<lambda>t. Inl ''SyntaxError''),
     ensureDir = (\<lambda>s d. None),
     screenshots = (\<lambda>s f t d n. Inr (Some 20000)),
     encode = (\<lambda>s f c out. Inr (Some 262144000)),
     extractSegment = (\<lambda>s f out a b. Inr (Some 90000000)),
     stat_message = (\<lambda>s f. ''ENOENT''),
     fs_remove = (\<lambda>s f. None)\<rparr>"

definition demo_state :: state where
  "demo_state = \<lparr>files = [''in.mp4'' \<mapsto> 300000000], trace = []\<rparr>"

definition demo_env :: env where
  "demo_env = [''MAX_VIDEO_SIZE_MB'' \<mapsto> ''ninety'', ''FRAME_CAPTURE_TIME'' \<mapsto> '' '']"

definition demo_processor :: processor where
  "demo_processor = \<lparr>maxVideoSizeMB = 98, frameCaptureTime = 2,
     presetPath = ''./video-preset.json'', preset = default_preset\<rparr>"

text \<open>
  Variants: a probe that finds no stream and no duration, one that reports the frame rate
  \<open>30/0\<close>, one that reports a 5 second video; and an instance configured to capture
  the frame at 10 seconds.
\<close>

definition silent_world :: world where
  "silent_world = demo_world\<lparr>ffprobe := (\<lambda>s f. Inr \<lparr>streams = [], format_duration = Some 0,
      format_size = Some 0, format_bit_rate = None\<rparr>)\<rparr>"


definition short_world :: world where
  "short_world = demo_world\<lparr>ffprobe := (\<lambda>s f. Inr (demo_metadata\<lparr>format_duration := Some 5\<rparr>))\<rparr>"

definition late_processor :: processor where
  "late_processor = demo_processor\<lparr>frameCaptureTime := 10\<rparr>"

text \<open>A state that holds a transcoded file of 250 MB.\<close>

definition big_state :: state where
  "big_state = \<lparr>files = [''temp/in_processed.mp4'' \<mapsto> 262144000], trace = []\<rparr>"

text \<open>A world in which the encoder fails.\<close>

definition failing_world :: world where
  "failing_world = demo_world\<lparr>encode := (\<lambda>s f c out. Inl ''ffmpeg exited with code 1'')\<rparr>"




section \<open>Properties\<close>

text \<open>
  The properties of the split step and of the job are stated for an instance whose size
  ceiling is not \<open>0\<close>. Every constructed instance is one
  (\<open>constructor_maxVideoSizeMB_nonzero\<close> below); with a ceiling of \<open>0\<close> the
  JavaScript quotient would be infinite, which the rational quotient of the model is not.
\<close>

subsection \<open>Construction\<close>

lemma digit_val_not_digit: "\<not> is_digit c \<Longrightarrow> digit_val 10 c = None"
  by (auto simp: is_digit_def digit_val_def Let_def)

lemma parseInt_non_numeric: "non_numeric s \<Longrightarrow> parseInt s = None"
proof -
  assume nn: "non_numeric s"
  obtain sg s2 where ss: "strip_sign (dropWhile is_space s) = (sg, s2)" by force
  show ?thesis
  proof (cases s2)
    case Nil
    then show ?thesis using ss by (simp add: parseInt_def strip_radix_def)
  next
    case (Cons c r)
    with nn ss have nd: "\<not> is_digit c" by (simp add: non_numeric_def)
    have "is_digit (CHR ''0'')" by (simp add: is_digit_def)
    then have c0: "c \<noteq> CHR ''0''" using nd by blast
    have "strip_radix s2 = (10, s2)" using Cons c0 by (simp add: strip_radix_def split: list.splits)
    then show ?thesis using ss Cons nd by (simp add: parseInt_def digit_val_not_digit)
  qed
qed

lemma parseInt_unset_or_non_numeric:
  "unset_or_non_numeric v \<Longrightarrow> parseInt (ToString v) = None"
proof (cases v)
  case None
  have "non_numeric ''undefined''"
    by (simp add: non_numeric_def is_space_def strip_sign_def is_digit_def)
  then show ?thesis using None by (simp add: ToString_def parseInt_non_numeric)
next
  case (Some s)
  assume "unset_or_non_numeric v"
  then show ?thesis using Some by (simp add: ToString_def unset_or_non_numeric_def parseInt_non_numeric)
qed

lemma constructor_fields:
  "maxVideoSizeMB (fst (constructor env w s)) = or_number (parseInt (ToString (env ''MAX_VIDEO_SIZE_MB''))) 98"
  "frameCaptureTime (fst (constructor env w s)) = or_number (parseInt (ToString (env ''FRAME_CAPTURE_TIME''))) 2"
  "presetPath (fst (constructor env w s)) = or_string (env ''VIDEO_PRESET_PATH'') ''./video-preset.json''"
  by (simp_all add: constructor_def Let_def split: prod.splits)

lemma constructor_maxVideoSizeMB_nonzero: "maxVideoSizeMB (fst (constructor env w s)) \<noteq> 0"
  by (simp add: constructor_fields or_number_def split: option.splits)

lemma captureFrame_env:
  "env1 ''TEMP_DIR'' = env2 ''TEMP_DIR'' \<Longrightarrow> captureFrame p env1 = captureFrame p env2"
  by (intro ext) (simp add: captureFrame_def outputDir_of_def)

lemma compressVideo_env:
  "env1 ''TEMP_DIR'' = env2 ''TEMP_DIR'' \<Longrightarrow> compressVideo p env1 = compressVideo p env2"
  by (intro ext) (simp add: compressVideo_def outputDir_of_def)

lemma splitVideo_env:
  "env1 ''TEMP_DIR'' = env2 ''TEMP_DIR'' \<Longrightarrow> splitVideo p env1 = splitVideo p env2"
  by (intro ext) (simp add: splitVideo_def outputDir_of_def)

lemma checkAndSplitVideo_env:
  assumes "env1 ''TEMP_DIR'' = env2 ''TEMP_DIR''"
  shows "checkAndSplitVideo p env1 = checkAndSplitVideo p env2"
proof -
  have "splitVideo p env1 = splitVideo p env2"
    using assms by (rule splitVideo_env)
  then show ?thesis
    by (intro ext) (simp add: checkAndSplitVideo_def cong: if_cong)
qed

lemma processVideo_env:
  assumes "env1 ''TEMP_DIR'' = env2 ''TEMP_DIR''"
  shows "processVideo p env1 = processVideo p env2"
proof -
  have "captureFrame p env1 = captureFrame p env2"
    and "compressVideo p env1 = compressVideo p env2"
    and "checkAndSplitVideo p env1 = checkAndSplitVideo p env2"
    using assms by (rule captureFrame_env compressVideo_env checkAndSplitVideo_env)+
  then show ?thesis
    by (intro ext) (simp add: processVideo_def)
qed

text \<open>
  C10. A size ceiling or capture time whose environment variable is unset or non-numeric
  is 98 and 2, and an unset preset path is \<open>./video-preset.json\<close>. The three are
  fields of the instance, fixed by the constructor: a job reads the environment only for
  \<open>TEMP_DIR\<close>, so two environments that agree there give the same job, whatever the
  variables of the three fields have become.
\<close>

theorem constructor_defaults:
  "(unset_or_non_numeric (env ''MAX_VIDEO_SIZE_MB'') \<longrightarrow>
      maxVideoSizeMB (fst (constructor env w s)) = 98) \<and>
   (unset_or_non_numeric (env ''FRAME_CAPTURE_TIME'') \<longrightarrow>
      frameCaptureTime (fst (constructor env w s)) = 2) \<and>
   (env ''VIDEO_PRESET_PATH'' = None \<longrightarrow>
      presetPath (fst (constructor env w s)) = ''./video-preset.json'') \<and>
   (env1 ''TEMP_DIR'' = env2 ''TEMP_DIR'' \<longrightarrow>
      processVideo (fst (constructor env w s)) env1 w' inputPath originalFileName st =
      processVideo (fst (constructor env w s)) env2 w' inputPath originalFileName st)"
  by (simp add: constructor_fields parseInt_unset_or_non_numeric or_number_def or_string_def
        processVideo_env [of env1 env2])

lemma demo_env_hyps:
  "unset_or_non_numeric (demo_env ''MAX_VIDEO_SIZE_MB'')"
  "unset_or_non_numeric (demo_env ''FRAME_CAPTURE_TIME'')"
  "demo_env ''VIDEO_PRESET_PATH'' = None"
  by (simp_all add: demo_env_def unset_or_non_numeric_def non_numeric_def is_space_def
        strip_sign_def is_digit_def)

theorem constructor_defaults_witness:
  "unset_or_non_numeric (demo_env ''MAX_VIDEO_SIZE_MB'') \<and>
   unset_or_non_numeric (demo_env ''FRAME_CAPTURE_TIME'') \<and>
   demo_env ''VIDEO_PRESET_PATH'' = None \<and>
   Map.empty ''TEMP_DIR'' = demo_env ''TEMP_DIR'' \<and>
   maxVideoSizeMB (fst (constructor demo_env demo_world demo_state)) = 98 \<and>
   frameCaptureTime (fst (constructor demo_env demo_world demo_state)) = 2 \<and>
   presetPath (fst (constructor demo_env demo_world demo_state)) = ''./video-preset.json'' \<and>
   processVideo (fst (constructor demo_env demo_world demo_state)) Map.empty demo_world
       ''in.mp4'' ''in.mp4'' demo_state =
   processVideo (fst (constructor demo_env demo_world demo_state)) demo_env demo_world
       ''in.mp4'' ''in.mp4'' demo_state"
proof -
  have t: "Map.empty ''TEMP_DIR'' = demo_env ''TEMP_DIR''" by (simp add: demo_env_def)
  show ?thesis
    using constructor_defaults [of demo_env demo_world demo_state Map.empty demo_env demo_world
        "''in.mp4''" "''in.mp4''" demo_state] demo_env_hyps t
    by simp
qed

text \<open>
  C6. \<open>loadPreset\<close> returns a value for every path (there is no error outcome). When
  the file cannot be read, or its text cannot be parsed, the value is the default preset
  (h264, aac, 1920x1080, 974, 29.97, 2, 48000), one warning is printed and nothing else
  changes.
\<close>

theorem loadPreset_fallback:
  "readFileSync w presetPath_this = None \<or>
   (\<exists>presetData. readFileSync w presetPath_this = Some presetData \<and> JSON_parse w presetData = None)
   \<Longrightarrow> loadPreset w presetPath_this s =
      (JObj [(''videoCodec'', JStr ''h264''), (''audioCodec'', JStr ''aac''),
             (''resolution'', JStr ''1920x1080''), (''bitrate'', JNum 974),
             (''fps'', JNum (2997 / 100)), (''audioChannels'', JNum 2),
             (''audioSampleRate'', JNum 48000)],
       s\<lparr>trace := trace s @ [Warn ''Failed to load video preset, using defaults'']\<rparr>)"
  by (auto simp: loadPreset_def default_preset_def emit_def)

theorem loadPreset_fallback_witness:
  "readFileSync demo_world ''./video-preset.json'' = None \<and>
   loadPreset demo_world ''./video-preset.json'' demo_state =
      (JObj [(''videoCodec'', JStr ''h264''), (''audioCodec'', JStr ''aac''),
             (''resolution'', JStr ''1920x1080''), (''bitrate'', JNum 974),
             (''fps'', JNum (2997 / 100)), (''audioChannels'', JNum 2),
             (''audioSampleRate'', JNum 48000)],
       demo_state\<lparr>trace := [Warn ''Failed to load video preset, using defaults'']\<rparr>)"
proof -
  have h: "readFileSync demo_world ''./video-preset.json'' = None"
    by (simp add: demo_world_def)
  then have "readFileSync demo_world ''./video-preset.json'' = None \<or>
    (\<exists>presetData. readFileSync demo_world ''./video-preset.json'' = Some presetData \<and>
       JSON_parse demo_world presetData = None)" by simp
  from loadPreset_fallback [OF this, of demo_state] h show ?thesis
    by (simp add: demo_state_def)
qed

subsection \<open>Analysis and thumbnail\<close>

lemma decimal_literal_0: "decimal_literal ''0'' = Some 0"
  by (simp add: decimal_literal_def is_digit_def digit_val_def number_of_digits_def)

lemma eval_js_0: "eval_js w ''0'' = Inr (Num 0)"
  by (simp add: eval_js_def decimal_literal_0)

text \<open>
  C5, as the code has it. Analysis is rejected exactly when the probe reports an error,
  with the message \<open>Failed to analyze video: ...\<close>. Nothing the probe reports is
  validated: with no video stream the promise resolves with a record whose video codec is
  undefined, whose resolution is \<open>undefinedxundefined\<close> and whose frame rate is 0,
  and the duration is the reported one, positive or not.
\<close>

theorem analyzeVideo_outcome:
  "((\<exists>e. fst (analyzeVideo w inputPath s) = Rejected e) \<longleftrightarrow>
      (\<exists>err. ffprobe w s inputPath = Inl err)) \<and>
   (\<forall>err. ffprobe w s inputPath = Inl err \<longrightarrow>
      fst (analyzeVideo w inputPath s) = Rejected (''Failed to analyze video: '' @ err)) \<and>
   (\<forall>md. ffprobe w s inputPath = Inr md \<longrightarrow>
      find (\<lambda>st. codec_type st = ''video'') (streams md) = None \<longrightarrow>
      (\<exists>info. fst (analyzeVideo w inputPath s) = Resolved info \<and>
         duration info = format_duration md \<and> videoCodec info = None \<and>
         resolution info = ''undefinedxundefined'' \<and> fps info = Num 0))"
  by (auto simp: analyzeVideo_def Let_def or_string_def eval_js_0 template_def
      split: sum.splits)

text \<open>
  C5 as stated fails: a probe that finds no stream and reports the duration 0 is not an
  error.
\<close>

theorem analyzeVideo_no_stream_counterexample:
  "fst (analyzeVideo silent_world ''in.mp4'' demo_state) =
     Resolved \<lparr>duration = Some 0, size_info = Some 0, bitrate = None, videoCodec = None,
       audioCodec = None, resolution = ''undefinedxundefined'', fps = Num 0,
       audioChannels = None, audioSampleRate = None\<rparr>"
  by (simp add: analyzeVideo_def silent_world_def demo_world_def Let_def or_string_def eval_js_0
      template_def)







text \<open>
  C3 as stated fails: with a 5 second video and a capture time of 10 seconds, ffmpeg is
  asked for the frame at 10 seconds.
\<close>

theorem captureFrame_counterexample:
  "ffprobe short_world demo_state ''in.mp4'' = Inr (demo_metadata\<lparr>format_duration := Some 5\<rparr>) \<and>
   fst (captureFrame late_processor Map.empty short_world ''in.mp4'' ''in.mp4'' demo_state) =
     Resolved ''temp/in_thumbnail.jpg'' \<and>
   trace (snd (captureFrame late_processor Map.empty short_world ''in.mp4'' ''in.mp4'' demo_state)) =
     [EnsureDir ''temp'', Screenshots ''in.mp4'' 10 ''temp'' ''in_thumbnail.jpg'']"
  by (simp add: captureFrame_def short_world_def demo_world_def late_processor_def
      demo_processor_def demo_state_def outputDir_of_def or_string_def emit_def write_file_def
      Let_def)


text \<open>
  C3, as the code has it. The capture step does not look at the duration: once the output
  directory exists, ffmpeg is asked for the frame at \<open>this.frameCaptureTime\<close>, as
  configured. The step is rejected exactly when creating the directory or the ffmpeg
  subprocess fails.
\<close>

theorem captureFrame_timestamp:
  "(ensureDir w s (outputDir_of env) = None \<longrightarrow>
      trace (snd (captureFrame p env w inputPath originalFileName s)) =
        trace s @ [EnsureDir (outputDir_of env),
                   Screenshots inputPath (frameCaptureTime p) (outputDir_of env)
                     (path_parse_name w originalFileName @ ''_thumbnail.jpg'')]) \<and>
   ((\<exists>e. fst (captureFrame p env w inputPath originalFileName s) = Rejected e) \<longleftrightarrow>
      (ensureDir w s (outputDir_of env) \<noteq> None \<or>
       (\<exists>err. screenshots w (emit (EnsureDir (outputDir_of env)) s) inputPath (frameCaptureTime p)
          (outputDir_of env) (path_parse_name w originalFileName @ ''_thumbnail.jpg'') = Inl err))) \<and>
   (\<forall>e. fst (captureFrame p env w inputPath originalFileName s) \<noteq> Uncaught e)"
  by (auto simp: captureFrame_def Let_def emit_def write_file_def split: option.splits sum.splits)

theorem captureFrame_timestamp_witness:
  "ensureDir short_world demo_state (outputDir_of Map.empty) = None \<and>
   trace (snd (captureFrame late_processor Map.empty short_world ''in.mp4'' ''in.mp4'' demo_state)) =
     trace demo_state @ [EnsureDir (outputDir_of Map.empty),
        Screenshots ''in.mp4'' (frameCaptureTime late_processor) (outputDir_of Map.empty)
          (path_parse_name short_world ''in.mp4'' @ ''_thumbnail.jpg'')] \<and>
   \<not> (\<exists>e. fst (captureFrame late_processor Map.empty short_world ''in.mp4'' ''in.mp4'' demo_state)
          = Rejected e)"
proof -
  have h: "ensureDir short_world demo_state (outputDir_of Map.empty) = None"
    by (simp add: short_world_def demo_world_def)
  have k: "\<not> (\<exists>err. screenshots short_world (emit (EnsureDir (outputDir_of Map.empty)) demo_state)
      ''in.mp4'' (frameCaptureTime late_processor) (outputDir_of Map.empty)
      (path_parse_name short_world ''in.mp4'' @ ''_thumbnail.jpg'') = Inl err)"
    by (simp add: short_world_def demo_world_def)
  from captureFrame_timestamp [of short_world demo_state Map.empty late_processor "''in.mp4''" "''in.mp4''"]
    h k show ?thesis by simp
qed

theorem analyzeVideo_outcome_witness:
  "ffprobe silent_world demo_state ''in.mp4'' =
     Inr \<lparr>streams = [], format_duration = Some 0, format_size = Some 0, format_bit_rate = None\<rparr> \<and>
   (\<exists>info. fst (analyzeVideo silent_world ''in.mp4'' demo_state) = Resolved info \<and>
      duration info = Some 0 \<and> videoCodec info = None \<and>
      resolution info = ''undefinedxundefined'' \<and> fps info = Num 0) \<and>
   \<not> (\<exists>e. fst (analyzeVideo silent_world ''in.mp4'' demo_state) = Rejected e)"
proof -
  have h: "ffprobe silent_world demo_state ''in.mp4'' =
     Inr \<lparr>streams = [], format_duration = Some 0, format_size = Some 0, format_bit_rate = None\<rparr>"
    by (simp add: silent_world_def)
  from analyzeVideo_outcome [of silent_world "''in.mp4''" demo_state] h show ?thesis
    by simp
qed

subsection \<open>The effects of each step\<close>

lemma andThen_cases [consumes 1, case_names resolved stopped]:
  assumes "andThen m k = (r, s')"
    and "\<And>v s1. m = (Resolved v, s1) \<Longrightarrow> k v s1 = (r, s') \<Longrightarrow> P"
    and "snd m = s' \<Longrightarrow> \<forall>v. r \<noteq> Resolved v \<Longrightarrow>
         (\<exists>e. fst m = Rejected e \<and> r = Rejected e) \<or> (\<exists>e. fst m = Uncaught e \<and> r = Uncaught e)
         \<Longrightarrow> P"
  shows P
  using assms by (cases m; cases "fst m") (auto simp: andThen_def)

lemma rethrow_cases [consumes 1, case_names passed wrapped]:
  assumes "rethrow prefix m = (r, s')"
    and "m = (r, s') \<Longrightarrow> \<forall>e. r \<noteq> Rejected e \<Longrightarrow> P"
    and "\<And>e. m = (Rejected e, s') \<Longrightarrow> r = Rejected (prefix @ e) \<Longrightarrow> P"
  shows P
  using assms by (cases m; cases "fst m") (auto simp: rethrow_def)

lemma analyzeVideo_state: "snd (analyzeVideo w f s) = emit (Ffprobe f) s"
  by (simp add: analyzeVideo_def Let_def split: sum.splits)

lemma getFileSize_state: "snd (getFileSize w f s) = s"
  by (simp add: getFileSize_def split: option.splits)

lemma getFileSize_Resolved:
  "getFileSize w f s = (Resolved n, s') \<longleftrightarrow> files s f = Some n \<and> s' = s"
  by (auto simp: getFileSize_def split: option.splits)

lemma files_emit [simp]: "files (emit e s) = files s"
  by (simp add: emit_def)

lemma trace_emit [simp]: "trace (emit e s) = trace s @ [e]"
  by (simp add: emit_def)

lemma trace_write_file [simp]: "trace (write_file f x s) = trace s"
  by (simp add: write_file_def split: option.splits)

lemma dom_write_file: "dom (files s) \<subseteq> dom (files (write_file f x s))"
  by (auto simp: write_file_def split: option.splits)

lemma trace_apply_event: "trace (apply_event w s e) = trace s @ [e]"
  by (cases e) (simp_all split: sum.splits option.splits)

lemma trace_replay: "trace (replay w s evs) = trace s @ evs"
  by (induction evs arbitrary: s) (simp_all add: trace_apply_event)

lemma replay_append: "replay w s (a @ b) = replay w (replay w s a) b"
  by (induction a arbitrary: s) simp_all

lemma all_ok_append: "all_ok w s (a @ b) \<longleftrightarrow> all_ok w s a \<and> all_ok w (replay w s a) b"
  by (induction a arbitrary: s) simp_all

lemma all_ok_butlast: "all_ok w s evs \<Longrightarrow> all_ok w s (butlast evs)"
proof (cases "evs = []")
  case True
  then show ?thesis by simp
next
  case False
  assume "all_ok w s evs"
  then have "all_ok w s (butlast evs @ [last evs])" using False by simp
  then show ?thesis by (simp only: all_ok_append)
qed

lemma dom_apply_event:
  "(\<forall>f. e \<noteq> Remove f) \<Longrightarrow> dom (files s) \<subseteq> dom (files (apply_event w s e))"
  using dom_write_file [of "emit e s"]
  by (cases e) (auto simp: write_file_def split: sum.splits option.splits)

lemma dom_replay:
  "(\<forall>f. Remove f \<notin> set evs) \<Longrightarrow> dom (files s) \<subseteq> dom (files (replay w s evs))"
proof (induction evs arbitrary: s)
  case Nil
  then show ?case by simp
next
  case (Cons e es)
  then have "\<forall>f. e \<noteq> Remove f" and "\<forall>f. Remove f \<notin> set es" by auto
  from dom_apply_event [OF this(1)] Cons.IH [OF this(2)]
  have "dom (files s) \<subseteq> dom (files (apply_event w s e))"
    "dom (files (apply_event w s e)) \<subseteq> dom (files (replay w (apply_event w s e) es))"
    by blast+
  then have "dom (files s) \<subseteq> dom (files (replay w (apply_event w s e) es))"
    by (rule order_trans)
  then show ?case by (simp only: replay.simps)
qed

lemma ran_nil: "ran w s [] r s"
  by (simp add: ran_def)

lemma ran_trace: "ran w s evs r s' \<Longrightarrow> trace s' = trace s @ evs"
  by (simp add: ran_def trace_replay)

lemma ran_seq:
  assumes "ran w s a (Resolved v) s1" and "ran w s1 b r s'"
  shows "ran w s (a @ b) r s'"
proof -
  from assms have a: "s1 = replay w s a" "all_ok w s a"
    and b: "s' = replay w s1 b" "all_ok w s1 (butlast b)" "(\<exists>v. r = Resolved v) \<longrightarrow> all_ok w s1 b"
    by (simp_all add: ran_def)
  have "all_ok w s (butlast (a @ b))"
  proof (cases "b = []")
    case True
    then show ?thesis using a(2) by (simp add: all_ok_butlast)
  next
    case False
    then show ?thesis using a b(2) by (simp add: butlast_append all_ok_append)
  qed
  with a b show ?thesis by (simp add: ran_def replay_append all_ok_append)
qed

lemma ran_outcome:
  "ran w s a (r0 :: 'a outcome) s' \<Longrightarrow> \<forall>v. r \<noteq> Resolved v \<Longrightarrow> ran w s a (r :: 'b outcome) s'"
  by (simp add: ran_def)

lemma analyzeVideo_ran:
  "analyzeVideo w f s = (r, s') \<Longrightarrow> ran w s [Ffprobe f] r s'"
  by (auto simp: analyzeVideo_def ran_def Let_def split: sum.splits)

lemma getFileSize_ran: "getFileSize w f s = (r, s') \<Longrightarrow> ran w s [] r s'"
  using getFileSize_state [of w f s] by (simp add: ran_def)

lemma captureFrame_ran:
  assumes "captureFrame p env w inputPath originalFileName s = (r, s')"
  shows "ran w s [EnsureDir (outputDir_of env)] r s' \<and> (\<forall>v. r \<noteq> Resolved v) \<or>
     ran w s [EnsureDir (outputDir_of env),
        Screenshots inputPath (frameCaptureTime p) (outputDir_of env)
          (path_parse_name w originalFileName @ ''_thumbnail.jpg'')] r s'"
  using assms
  by (auto simp: captureFrame_def ran_def Let_def split: option.splits sum.splits)

lemma compressVideo_ran:
  assumes "compressVideo p env w inputPath originalFileName s = (r, s')"
  shows "(ran w s [EnsureDir (outputDir_of env)] r s' \<and> (\<forall>v. r \<noteq> Resolved v) \<or>
     ran w s [EnsureDir (outputDir_of env),
        Encode inputPath (preset p)
          (path_join w (outputDir_of env) (path_parse_name w originalFileName @ ''_processed.mp4''))]
        r s') \<and>
    (\<forall>v. r = Resolved v \<longrightarrow>
       v = path_join w (outputDir_of env) (path_parse_name w originalFileName @ ''_processed.mp4''))"
  using assms
  by (auto simp: compressVideo_def ran_def Let_def split: option.splits sum.splits if_splits)

lemma extractVideoSegment_ran:
  "extractVideoSegment w i out a b s = (r, s') \<Longrightarrow>
   ran w s [ExtractSegment i out a (minus_time b a)] r s'"
  by (auto simp: extractVideoSegment_def ran_def Let_def split: sum.splits)

lemma split_loop_ran:
  "split_loop w videoPath outputDir baseName dpp n i parts s = (r, s') \<Longrightarrow>
   \<exists>j\<ge>i. ran w s (map (segment_event w videoPath outputDir baseName dpp) [i..<j]) r s' \<and>
      (i < j \<longrightarrow> int j \<le> n) \<and> ((\<exists>ps. r = Resolved ps) \<longrightarrow> n \<le> int j)"
proof (induction "nat (n - int i)" arbitrary: i parts s)
  case 0
  then have "\<not> int i < n" by simp
  with "0.prems" have "r = Resolved parts" "s' = s"
    by (simp_all add: split_loop.simps)
  with \<open>\<not> int i < n\<close> show ?case by (intro exI [of _ i]) (simp add: ran_nil)
next
  case (Suc k)
  then have True: "int i < n" and k: "k = nat (n - int (Suc i))" by auto
  note prems = Suc.prems
  note hyp = Suc.hyps(1)
  let ?seg = "segment_event w videoPath outputDir baseName dpp"
  define partPath where "partPath = path_join w outputDir (part_name baseName (i + 1))"
  define a where "a = times_time i dpp"
  define b where "b = times_time (i + 1) dpp"
  obtain r1 s1 where ex: "extractVideoSegment w videoPath partPath a b s = (r1, s1)"
    by force
  have seg: "?seg i = ExtractSegment videoPath partPath a (minus_time b a)"
    by (simp add: segment_event_def partPath_def a_def b_def)
  have run1: "ran w s [?seg i] r1 s1"
    unfolding seg using ex by (rule extractVideoSegment_ran)
  have one: "map ?seg [i..<Suc i] = [?seg i]" by simp
  have stop: ?case if "s' = s1" "\<forall>ps. r \<noteq> Resolved ps"
  proof -
    from run1 that(2) have "ran w s [?seg i] r s1" by (rule ran_outcome)
    with that True show ?thesis by (intro exI [of _ "Suc i"]) (simp add: one)
  qed
  show ?case
  proof (cases r1)
    case (Resolved out)
    show ?thesis
    proof (cases "files s1 partPath")
      case None
      with prems True ex Resolved have "s' = s1" "\<forall>ps. r \<noteq> Resolved ps"
        by (auto simp: split_loop.simps [of _ _ _ _ _ _ i] Let_def part_name_def partPath_def
            a_def b_def getFileSize_def)
      then show ?thesis by (rule stop)
    next
      case (Some sz)
      define art where "art = \<lparr>art_path = partPath, art_name = part_name baseName (i + 1),
          art_type = video, art_size = sz, part = Some (i + 1), totalParts = Some n\<rparr>"
      have gs: "getFileSize w partPath s1 = (Resolved sz, s1)"
        using Some by (simp add: getFileSize_def)
      have rec: "split_loop w videoPath outputDir baseName dpp n (Suc i) (parts @ [art]) s1 = (r, s')"
        using prems True ex Resolved gs
        by (simp add: split_loop.simps [of _ _ _ _ _ _ i] Let_def part_name_def partPath_def
            a_def b_def art_def)
      from hyp [OF k rec] obtain j where j: "Suc i \<le> j"
        "ran w s1 (map ?seg [Suc i..<j]) r s'"
        "Suc i < j \<longrightarrow> int j \<le> n" "(\<exists>ps. r = Resolved ps) \<longrightarrow> n \<le> int j"
        by blast
      from run1 Resolved have "ran w s [?seg i] (Resolved out) s1" by simp
      from ran_seq [OF this j(2)] have "ran w s ([?seg i] @ map ?seg [Suc i..<j]) r s'" .
      moreover have "[i..<j] = i # [Suc i..<j]" using j(1) by (simp add: upt_conv_Cons)
      ultimately have "ran w s (map ?seg [i..<j]) r s'" by simp
      moreover have "int j \<le> n" using j(1,3) True by (cases "Suc i < j") auto
      ultimately show ?thesis using j(1,4)
        by (intro exI [of _ j]) simp
    qed
  next
    case (Rejected e)
    with prems True ex have "s' = s1" "\<forall>ps. r \<noteq> Resolved ps"
      by (auto simp: split_loop.simps [of _ _ _ _ _ _ i] Let_def part_name_def partPath_def
          a_def b_def)
    then show ?thesis by (rule stop)
  next
    case (Uncaught e)
    with prems True ex have "s' = s1" "\<forall>ps. r \<noteq> Resolved ps"
      by (auto simp: split_loop.simps [of _ _ _ _ _ _ i] Let_def part_name_def partPath_def
          a_def b_def)
    then show ?thesis by (rule stop)
  qed
qed

lemma split_loop_parts:
  "split_loop w videoPath outputDir baseName dpp n i parts s = (Resolved ps, s') \<Longrightarrow>
   \<exists>new. ps = parts @ new \<and> length new = nat (n - int i) \<and>
     (\<forall>k<length new. is_part w outputDir baseName n (i + k + 1) (new ! k))"
proof (induction "nat (n - int i)" arbitrary: i parts s)
  case 0
  then have "\<not> int i < n" by simp
  with "0.prems" have "ps = parts" by (simp add: split_loop.simps)
  with \<open>\<not> int i < n\<close> show ?case by simp
next
  case (Suc k)
  then have True: "int i < n" and k: "k = nat (n - int (Suc i))" by auto
  note prems = Suc.prems
  note hyp = Suc.hyps(1)
  define partPath where "partPath = path_join w outputDir (part_name baseName (i + 1))"
  define a where "a = times_time i dpp"
  define b where "b = times_time (i + 1) dpp"
  obtain r1 s1 where ex: "extractVideoSegment w videoPath partPath a b s = (r1, s1)"
    by force
  from prems True ex obtain out where r1: "r1 = Resolved out"
    by (cases r1)
       (auto simp: split_loop.simps [of _ _ _ _ _ _ i] Let_def part_name_def partPath_def
          a_def b_def)
  from prems True ex r1 obtain sz where sz: "files s1 partPath = Some sz"
    by (cases "files s1 partPath")
       (auto simp: split_loop.simps [of _ _ _ _ _ _ i] Let_def part_name_def partPath_def
          a_def b_def getFileSize_def)
  define art where "art = \<lparr>art_path = partPath, art_name = part_name baseName (i + 1),
      art_type = video, art_size = sz, part = Some (i + 1), totalParts = Some n\<rparr>"
  have gs: "getFileSize w partPath s1 = (Resolved sz, s1)"
    using sz by (simp add: getFileSize_def)
  have rec: "split_loop w videoPath outputDir baseName dpp n (Suc i) (parts @ [art]) s1 =
      (Resolved ps, s')"
    using prems True ex r1 gs
    by (simp add: split_loop.simps [of _ _ _ _ _ _ i] Let_def part_name_def partPath_def
        a_def b_def art_def)
  from hyp [OF k rec] obtain new where new: "ps = (parts @ [art]) @ new"
    "length new = nat (n - int (Suc i))"
    "\<forall>k<length new. is_part w outputDir baseName n (Suc i + k + 1) (new ! k)"
    by blast
  have art: "is_part w outputDir baseName n (i + 1) art"
    by (simp add: is_part_def art_def partPath_def)
  have "\<forall>k<length (art # new). is_part w outputDir baseName n (i + k + 1) ((art # new) ! k)"
  proof (intro allI impI)
    fix k assume "k < length (art # new)"
    then show "is_part w outputDir baseName n (i + k + 1) ((art # new) ! k)"
      using art new(3) by (cases k) auto
  qed
  moreover have "length (art # new) = nat (n - int i)" using new(2) True by simp
  moreover have "ps = parts @ art # new" using new(1) by simp
  ultimately show ?case by blast
qed

lemma ran_resolved_any:
  "ran w s a (Resolved v) s' \<Longrightarrow> ran w s a r s'"
  by (simp add: ran_def all_ok_butlast)

lemma fs_remove_ran:
  "(case fs_remove w s3 videoPath of
      Some err \<Rightarrow> (Rejected err, emit (Remove videoPath) s3)
    | None \<Rightarrow> (Resolved parts, emit (Remove videoPath) (s3\<lparr>files := (files s3)(videoPath := None)\<rparr>)))
   = (r, s') \<Longrightarrow> ran w s3 [Remove videoPath] r s'"
  by (auto simp: ran_def split: option.splits)

lemma splitVideo_ran:
  assumes "splitVideo p env w videoPath originalFileName s = (r, s')"
  shows "\<exists>dpp j tl. ran w s (Ffprobe videoPath #
        map (segment_event w videoPath (outputDir_of env) (path_parse_name w originalFileName) dpp)
          [0..<j] @ tl) r s' \<and>
      (tl = [] \<or>
       tl = [Remove videoPath] \<and>
       (\<exists>sz. files s videoPath = Some sz \<and>
          j = nat \<lceil>(of_nat sz :: rat) / (1024 * 1024) / of_int (maxVideoSizeMB p)\<rceil>))"
proof -
  let ?seg = "segment_event w videoPath (outputDir_of env) (path_parse_name w originalFileName)"
  have short: ?thesis if "ran w s (Ffprobe videoPath # map (?seg dpp) [0..<j]) r s'" for dpp j
    using that by (intro exI [of _ dpp] exI [of _ j] exI [of _ "[]"]) simp
  from assms show ?thesis unfolding splitVideo_def
  proof (cases rule: andThen_cases)
    case stopped
    have "analyzeVideo w videoPath s = (fst (analyzeVideo w videoPath s), s')"
      using stopped(1) by (simp add: prod_eq_iff)
    from analyzeVideo_ran [OF this] stopped(2) have "ran w s [Ffprobe videoPath] r s'"
      by (rule ran_outcome)
    then show ?thesis by (intro short [of None 0]) simp
  next
    case (resolved info s1)
    from analyzeVideo_ran [OF resolved(1)] have A: "ran w s [Ffprobe videoPath] (Resolved info) s1" .
    from resolved(1) have "s1 = snd (analyzeVideo w videoPath s)" by simp
    then have f1: "files s1 = files s" by (simp add: analyzeVideo_state)
    from resolved(2) show ?thesis
    proof (cases rule: andThen_cases)
      case stopped
      then have "s' = s1" using getFileSize_state [of w videoPath s1] by simp
      with A stopped(2) have "ran w s [Ffprobe videoPath] r s'" by (simp add: ran_outcome)
      then show ?thesis by (intro short [of None 0]) simp
    next
      case (resolved fileSize s2)
      then have s2: "s2 = s1" and sz: "files s videoPath = Some fileSize"
        by (simp_all add: getFileSize_Resolved f1)
      define n where "n = \<lceil>(of_nat fileSize :: rat) / (1024 * 1024) / of_int (maxVideoSizeMB p)\<rceil>"
      define dpp where "dpp = divide_time (parseFloat (duration info)) n"
      from resolved(2) have "andThen (split_loop w videoPath (outputDir_of env)
          (path_parse_name w originalFileName) dpp n 0 [] s1)
             (\<lambda>parts s3.
                (case fs_remove w s3 videoPath of
                   Some err \<Rightarrow> (Rejected err, emit (Remove videoPath) s3)
                 | None \<Rightarrow>
                     (Resolved parts,
                      emit (Remove videoPath) (s3\<lparr>files := (files s3)(videoPath := None)\<rparr>)))) = (r, s')"
        unfolding Let_def n_def dpp_def s2 .
      then show ?thesis
      proof (cases rule: andThen_cases)
        case stopped
        have "split_loop w videoPath (outputDir_of env)
          (path_parse_name w originalFileName) dpp n 0 [] s1 =
           (fst (split_loop w videoPath (outputDir_of env)
          (path_parse_name w originalFileName) dpp n 0 [] s1), s')"
          using stopped(1) by (simp add: prod_eq_iff)
        from split_loop_ran [OF this] obtain j where
          "ran w s1 (map (?seg dpp) [0..<j])
             (fst (split_loop w videoPath (outputDir_of env)
                (path_parse_name w originalFileName) dpp n 0 [] s1)) s'" by blast
        then have "ran w s1 (map (?seg dpp) [0..<j]) r s'" using stopped(2) by (rule ran_outcome)
        from ran_seq [OF A this] show ?thesis by (intro short [of dpp j]) simp
      next
        case (resolved parts s3)
        from split_loop_ran [OF resolved(1)] obtain j where
          L: "ran w s1 (map (?seg dpp) [0..<j]) (Resolved parts) s3" and
          b: "0 < j \<longrightarrow> int j \<le> n" "n \<le> int j" by blast
        from b have j: "j = nat n" by (cases "0 < j") auto
        from fs_remove_ran [OF resolved(2)] have R: "ran w s3 [Remove videoPath] r s'" .
        from ran_seq [OF ran_seq [OF A L] R]
        have "ran w s (Ffprobe videoPath # map (?seg dpp) [0..<j] @ [Remove videoPath]) r s'"
          by simp
        with sz j show ?thesis unfolding n_def
          by (intro exI [of _ dpp] exI [of _ j] exI [of _ "[Remove videoPath]"]) simp
      qed
    qed
  qed
qed

lemma checkAndSplitVideo_ran:
  assumes "checkAndSplitVideo p env w videoPath originalFileName s = (r, s')"
  shows "\<exists>rest. ran w s rest r s' \<and>
       split_events p w s videoPath (outputDir_of env) (path_parse_name w originalFileName) rest"
  using assms unfolding checkAndSplitVideo_def
proof (cases rule: andThen_cases)
  case stopped
  then have "s' = s" using getFileSize_state [of w videoPath s] by simp
  then show ?thesis by (intro exI [of _ "[]"]) (simp add: split_events_def ran_nil)
next
  case (resolved fileSize s1)
  then have s1: "s1 = s" by (simp add: getFileSize_Resolved)
  show ?thesis
  proof (cases "(of_nat fileSize :: rat) / (1024 * 1024) \<le> of_int (maxVideoSizeMB p)")
    case True
    with resolved(2) s1 have "s' = s" by (simp add: Let_def)
    then show ?thesis by (intro exI [of _ "[]"]) (simp add: split_events_def ran_nil)
  next
    case False
    with resolved(2) s1 have "splitVideo p env w videoPath originalFileName s = (r, s')"
      by (simp add: Let_def)
    from splitVideo_ran [OF this] show ?thesis
      unfolding split_events_def by blast
  qed
qed

subsection \<open>Size check and splitting\<close>

lemma analyzeVideo_duration:
  "analyzeVideo w f s = (Resolved info, s1) \<Longrightarrow>
   \<exists>md. ffprobe w s f = Inr md \<and> duration info = format_duration md"
  by (auto simp: analyzeVideo_def Let_def split: sum.splits)

lemma splitVideo_Resolved:
  assumes "splitVideo p env w videoPath originalFileName s = (Resolved ps, s')"
  shows "\<exists>md fileSize s3. ffprobe w s videoPath = Inr md \<and> files s videoPath = Some fileSize \<and>
     split_loop w videoPath (outputDir_of env) (path_parse_name w originalFileName)
       (divide_time (parseFloat (format_duration md))
          \<lceil>(of_nat fileSize :: rat) / (1024 * 1024) / of_int (maxVideoSizeMB p)\<rceil>)
       \<lceil>(of_nat fileSize :: rat) / (1024 * 1024) / of_int (maxVideoSizeMB p)\<rceil> 0 []
       (emit (Ffprobe videoPath) s) = (Resolved ps, s3) \<and>
     trace s' = trace s3 @ [Remove videoPath]"
  using assms unfolding splitVideo_def
proof (cases rule: andThen_cases)
  case stopped
  then show ?thesis by simp
next
  case (resolved info s1)
  from analyzeVideo_duration [OF resolved(1)] obtain md where
    md: "ffprobe w s videoPath = Inr md" "duration info = format_duration md" by blast
  from resolved(1) have s1: "s1 = emit (Ffprobe videoPath) s"
    using analyzeVideo_state [of w videoPath s] by simp
  from resolved(2) show ?thesis
  proof (cases rule: andThen_cases)
    case stopped
    then show ?thesis by simp
  next
    case (resolved fileSize s2)
    then have s2: "s2 = s1" and fs: "files s videoPath = Some fileSize"
      by (simp_all add: getFileSize_Resolved s1)
    from resolved(2) show ?thesis unfolding Let_def
    proof (cases rule: andThen_cases)
      case stopped
      then show ?thesis by simp
    next
      case (resolved parts s3)
      from resolved(2) have "parts = ps" "trace s' = trace s3 @ [Remove videoPath]"
        by (auto split: option.splits)
      with resolved(1) md fs s1 s2 show ?thesis by auto
    qed
  qed
qed

text \<open>
  C1. Let the transcoded file exist with \<open>fileSize\<close> bytes, and the ceiling be any
  integer but \<open>0\<close>. When the size in MB is at
  most the ceiling, the split step returns one video artifact for the file itself, without
  part fields, and changes nothing (no tool runs, no file is written). Otherwise, whenever
  the step returns, it returns \<open>ceil(sizeMB / ceiling)\<close> artifacts (none when that
  number is not positive), the \<open>i\<close>-th named \<open><base>_part<i>.mp4\<close>, of type
  video, with \<open>part = i\<close> and \<open>totalParts\<close> the number of parts.
\<close>

theorem checkAndSplitVideo_result:
  assumes "files s videoPath = Some fileSize" and "maxVideoSizeMB p \<noteq> 0"
  shows
   "((of_nat fileSize :: rat) / (1024 * 1024) \<le> of_int (maxVideoSizeMB p) \<longrightarrow>
       checkAndSplitVideo p env w videoPath originalFileName s =
         (Resolved [\<lparr>art_path = videoPath, art_name = path_basename w videoPath,
                      art_type = video, art_size = fileSize, part = None, totalParts = None\<rparr>], s)) \<and>
    (\<not> (of_nat fileSize :: rat) / (1024 * 1024) \<le> of_int (maxVideoSizeMB p) \<longrightarrow>
       (\<forall>parts s'. checkAndSplitVideo p env w videoPath originalFileName s = (Resolved parts, s') \<longrightarrow>
          length parts = nat \<lceil>(of_nat fileSize :: rat) / (1024 * 1024) / of_int (maxVideoSizeMB p)\<rceil> \<and>
          (\<forall>i<length parts.
             art_name (parts ! i) =
               path_parse_name w originalFileName @ ''_part'' @ decimal (i + 1) @ ''.mp4'' \<and>
             art_type (parts ! i) = video \<and>
             part (parts ! i) = Some (i + 1) \<and>
             totalParts (parts ! i) =
               Some \<lceil>(of_nat fileSize :: rat) / (1024 * 1024) / of_int (maxVideoSizeMB p)\<rceil>)))"
proof (intro conjI impI allI)
  assume "(of_nat fileSize :: rat) / (1024 * 1024) \<le> of_int (maxVideoSizeMB p)"
  with assms(1) show "checkAndSplitVideo p env w videoPath originalFileName s =
         (Resolved [\<lparr>art_path = videoPath, art_name = path_basename w videoPath,
                      art_type = video, art_size = fileSize, part = None, totalParts = None\<rparr>], s)"
    by (simp add: checkAndSplitVideo_def andThen_def getFileSize_def Let_def)
next
  fix parts s'
  assume big: "\<not> (of_nat fileSize :: rat) / (1024 * 1024) \<le> of_int (maxVideoSizeMB p)"
    and res: "checkAndSplitVideo p env w videoPath originalFileName s = (Resolved parts, s')"
  let ?n = "\<lceil>(of_nat fileSize :: rat) / (1024 * 1024) / of_int (maxVideoSizeMB p)\<rceil>"
  from res big assms(1) have "splitVideo p env w videoPath originalFileName s = (Resolved parts, s')"
    by (simp add: checkAndSplitVideo_def andThen_def getFileSize_def Let_def)
  from splitVideo_Resolved [OF this] assms(1) obtain dpp s0 s3 where
    "split_loop w videoPath (outputDir_of env) (path_parse_name w originalFileName) dpp ?n 0 [] s0
       = (Resolved parts, s3)"
    by auto
  from split_loop_parts [OF this] have len: "length parts = nat ?n"
    and each: "\<forall>k<length parts. is_part w (outputDir_of env) (path_parse_name w originalFileName) ?n
        (k + 1) (parts ! k)"
    by auto
  from len show "length parts = nat ?n" .
  fix i assume "i < length parts"
  with each have "is_part w (outputDir_of env) (path_parse_name w originalFileName) ?n (i + 1) (parts ! i)"
    by blast
  then show "art_name (parts ! i) =
               path_parse_name w originalFileName @ ''_part'' @ decimal (i + 1) @ ''.mp4''"
    "art_type (parts ! i) = video" "part (parts ! i) = Some (i + 1)"
    "totalParts (parts ! i) = Some ?n"
    by (simp_all add: is_part_def part_name_def)
qed

lemma ceiling_demo: "\<lceil>(125 :: rat) / 49\<rceil> = 3"
  by (rule ceiling_unique) simp_all

lemma demo_split:
  "fst (checkAndSplitVideo demo_processor Map.empty demo_world ''temp/in_processed.mp4'' ''in.mp4''
     big_state) =
   Resolved
     [\<lparr>art_path = ''temp/in_part1.mp4'', art_name = ''in_part1.mp4'', art_type = video,
       art_size = 90000000, part = Some 1, totalParts = Some 3\<rparr>,
      \<lparr>art_path = ''temp/in_part2.mp4'', art_name = ''in_part2.mp4'', art_type = video,
       art_size = 90000000, part = Some 2, totalParts = Some 3\<rparr>,
      \<lparr>art_path = ''temp/in_part3.mp4'', art_name = ''in_part3.mp4'', art_type = video,
       art_size = 90000000, part = Some 3, totalParts = Some 3\<rparr>]"
  by (simp add: checkAndSplitVideo_def splitVideo_def andThen_def getFileSize_def Let_def
      demo_processor_def big_state_def demo_world_def analyzeVideo_def demo_metadata_def
      demo_stream_def or_string_def eval_js_def decimal_literal_def is_digit_def digit_val_def
      number_of_digits_def template_def decimal.simps digit_char_def emit_def write_file_def
      split_loop.simps extractVideoSegment_def minus_time_def outputDir_of_def
      ceiling_demo)


theorem checkAndSplitVideo_result_witness:
  "files big_state ''temp/in_processed.mp4'' = Some 262144000 \<and>
   maxVideoSizeMB demo_processor \<noteq> 0 \<and>
   \<not> (of_nat 262144000 :: rat) / (1024 * 1024) \<le> of_int (maxVideoSizeMB demo_processor) \<and>
   (\<exists>parts s'. checkAndSplitVideo demo_processor Map.empty demo_world ''temp/in_processed.mp4''
        ''in.mp4'' big_state = (Resolved parts, s') \<and>
      length parts = 3 \<and> map art_name parts = [''in_part1.mp4'', ''in_part2.mp4'', ''in_part3.mp4''] \<and>
      (\<forall>i<length parts. part (parts ! i) = Some (i + 1) \<and> totalParts (parts ! i) = Some 3))"
proof -
  have h1: "files big_state ''temp/in_processed.mp4'' = Some 262144000"
    by (simp add: big_state_def)
  have h2: "maxVideoSizeMB demo_processor \<noteq> 0"
    by (simp add: demo_processor_def)
  have h3: "\<not> (of_nat 262144000 :: rat) / (1024 * 1024) \<le> of_int (maxVideoSizeMB demo_processor)"
    by (simp add: demo_processor_def)
  have n: "\<lceil>(of_nat 262144000 :: rat) / (1024 * 1024) / of_int (maxVideoSizeMB demo_processor)\<rceil> = 3"
    by (simp add: demo_processor_def ceiling_demo)
  define parts where "parts =
     [\<lparr>art_path = ''temp/in_part1.mp4'', art_name = ''in_part1.mp4'', art_type = video,
       art_size = 90000000, part = Some 1, totalParts = Some (3 :: int)\<rparr>,
      \<lparr>art_path = ''temp/in_part2.mp4'', art_name = ''in_part2.mp4'', art_type = video,
       art_size = 90000000, part = Some 2, totalParts = Some 3\<rparr>,
      \<lparr>art_path = ''temp/in_part3.mp4'', art_name = ''in_part3.mp4'', art_type = video,
       art_size = 90000000, part = Some 3, totalParts = Some 3\<rparr>]"
  have names: "map art_name parts = [''in_part1.mp4'', ''in_part2.mp4'', ''in_part3.mp4'']"
    by (simp add: parts_def)
  have "fst (checkAndSplitVideo demo_processor Map.empty demo_world
      ''temp/in_processed.mp4'' ''in.mp4'' big_state) = Resolved parts"
    unfolding parts_def by (rule demo_split)
  then obtain s' where ev: "checkAndSplitVideo demo_processor Map.empty demo_world
      ''temp/in_processed.mp4'' ''in.mp4'' big_state = (Resolved parts, s')"
    by (cases "checkAndSplitVideo demo_processor Map.empty demo_world
      ''temp/in_processed.mp4'' ''in.mp4'' big_state") simp
  from checkAndSplitVideo_result [OF h1 h2, of Map.empty demo_world "''in.mp4''"] h3 ev n
  have "length parts = 3"
    "\<forall>i<length parts. part (parts ! i) = Some (i + 1) \<and> totalParts (parts ! i) = Some 3"
    by auto
  then have "\<exists>parts s'. checkAndSplitVideo demo_processor Map.empty demo_world ''temp/in_processed.mp4''
        ''in.mp4'' big_state = (Resolved parts, s') \<and>
      length parts = 3 \<and> map art_name parts = [''in_part1.mp4'', ''in_part2.mp4'', ''in_part3.mp4''] \<and>
      (\<forall>i<length parts. part (parts ! i) = Some (i + 1) \<and> totalParts (parts ! i) = Some 3)"
    using ev names by (intro exI [of _ parts] exI [of _ s']) simp
  with h1 h2 h3 show ?thesis by (intro conjI)
qed

lemma checkAndSplitVideo_parts:
  assumes "checkAndSplitVideo p env w videoPath originalFileName s = (Resolved vs, s')"
  shows "(\<forall>v\<in>set vs. art_type v = video) \<and>
     (map part vs = [None] \<or> map part vs = map Some [1..<Suc (length vs)])"
  using assms unfolding checkAndSplitVideo_def
proof (cases rule: andThen_cases)
  case stopped
  then show ?thesis by simp
next
  case (resolved fileSize s1)
  show ?thesis
  proof (cases "(of_nat fileSize :: rat) / (1024 * 1024) \<le> of_int (maxVideoSizeMB p)")
    case True
    with resolved(2) show ?thesis by (auto simp: Let_def)
  next
    case False
    with resolved(2) have "splitVideo p env w videoPath originalFileName s1 = (Resolved vs, s')"
      by (simp add: Let_def)
    from splitVideo_Resolved [OF this] obtain dpp n s0 s3 where
      "split_loop w videoPath (outputDir_of env) (path_parse_name w originalFileName) dpp n 0 [] s0
         = (Resolved vs, s3)"
      by blast
    from split_loop_parts [OF this] have
      each: "\<forall>k<length vs. is_part w (outputDir_of env) (path_parse_name w originalFileName) n
          (k + 1) (vs ! k)"
      by auto
    have "\<forall>v\<in>set vs. art_type v = video"
      using each by (auto simp: in_set_conv_nth is_part_def)
    moreover have "map part vs = map Some [1..<Suc (length vs)]"
    proof (rule nth_equalityI)
      show "length (map part vs) = length (map Some [1..<Suc (length vs)])"
        by (simp del: upt_Suc)
    next
      fix i assume "i < length (map part vs)"
      then have i: "i < length vs" by simp
      with each have "part (vs ! i) = Some (i + 1)" by (simp add: is_part_def)
      with i show "map part vs ! i = map Some [1..<Suc (length vs)] ! i"
        by (simp add: nth_upt del: upt_Suc)
    qed
    ultimately show ?thesis by blast
  qed
qed

subsection \<open>The job\<close>

lemma default_preset_not_null: "default_preset \<noteq> JNull"
  by (simp add: default_preset_def)

lemmas demo_eval =
  processVideo_def rethrow_def captureFrame_def compressVideo_def
  checkAndSplitVideo_def splitVideo_def andThen_def getFileSize_def Let_def
  demo_processor_def demo_state_def demo_world_def analyzeVideo_def demo_metadata_def
  demo_stream_def or_string_def eval_js_def decimal_literal_def is_digit_def digit_val_def
  number_of_digits_def template_def decimal.simps digit_char_def emit_def write_file_def
  split_loop.simps extractVideoSegment_def minus_time_def outputDir_of_def
  ceiling_demo default_preset_not_null

text \<open>The job in the concrete world: its result and its effects.\<close>

lemma demo_job_result:
  "fst (processVideo demo_processor Map.empty demo_world ''in.mp4'' ''in.mp4'' demo_state) =
   Resolved
     [\<lparr>art_path = ''temp/in_part1.mp4'', art_name = ''in_part1.mp4'', art_type = video,
       art_size = 90000000, part = Some 1, totalParts = Some 3\<rparr>,
      \<lparr>art_path = ''temp/in_part2.mp4'', art_name = ''in_part2.mp4'', art_type = video,
       art_size = 90000000, part = Some 2, totalParts = Some 3\<rparr>,
      \<lparr>art_path = ''temp/in_part3.mp4'', art_name = ''in_part3.mp4'', art_type = video,
       art_size = 90000000, part = Some 3, totalParts = Some 3\<rparr>,
      \<lparr>art_path = ''temp/in_thumbnail.jpg'', art_name = ''in_thumbnail.jpg'',
       art_type = thumbnail, art_size = 20000, part = None, totalParts = None\<rparr>]"
  by (simp add: demo_eval)

text \<open>
  C9. The list that a job returns is the list of the split step followed by one thumbnail
  artifact, and every artifact before the last is a video. The videos are either the
  single unsplit file or carry the part numbers 1, 2, ... in this order.
\<close>

theorem processVideo_artifacts:
  assumes "processVideo p env w inputPath originalFileName s = (Resolved arts, s')"
    and "maxVideoSizeMB p \<noteq> 0"
  shows "\<exists>vs t. arts = vs @ [t] \<and> art_type t = thumbnail \<and> (\<forall>v\<in>set vs. art_type v = video) \<and>
     (map part vs = [None] \<or> map part vs = map Some [1..<Suc (length vs)])"
  using assms(1) unfolding processVideo_def
proof (cases rule: rethrow_cases)
  case (wrapped e)
  then show ?thesis by simp
next
  case passed
  from passed(1) show ?thesis
  proof (cases rule: andThen_cases)
    case stopped
    then show ?thesis by simp
  next
    case (resolved info s1)
    from resolved(2) show ?thesis
    proof (cases rule: andThen_cases)
      case stopped
      then show ?thesis by simp
    next
      case (resolved thumbnailPath s2)
      from resolved(2) show ?thesis
      proof (cases rule: andThen_cases)
        case stopped
        then show ?thesis by simp
      next
        case (resolved processedPath s3)
        from resolved(2) show ?thesis
        proof (cases rule: andThen_cases)
          case stopped
          then show ?thesis by simp
        next
          case (resolved processedVideos s4)
          note vs = checkAndSplitVideo_parts [OF resolved(1)]
          from resolved(2) show ?thesis
          proof (cases rule: andThen_cases)
            case stopped
            then show ?thesis by simp
          next
            case (resolved thumbnailSize s5)
            define t where "t = \<lparr>art_path = thumbnailPath,
                  art_name = path_parse_name w originalFileName @ ''_thumbnail.jpg'',
                  art_type = thumbnail, art_size = thumbnailSize, part = None,
                  totalParts = None\<rparr>"
            from resolved(2) have a: "arts = processedVideos @ [t]" by (simp add: t_def)
            have b: "art_type t = thumbnail" by (simp add: t_def)
            show ?thesis
            proof (intro exI conjI)
              show "arts = processedVideos @ [t]" by (rule a)
              show "art_type t = thumbnail" by (rule b)
              show "\<forall>v\<in>set processedVideos. art_type v = video" by (rule vs [THEN conjunct1])
              show "map part processedVideos = [None] \<or>
                map part processedVideos = map Some [1..<Suc (length processedVideos)]"
                by (rule vs [THEN conjunct2])
            qed
          qed
        qed
      qed
    qed
  qed
qed

theorem processVideo_artifacts_witness:
  "maxVideoSizeMB demo_processor \<noteq> 0 \<and>
   (\<exists>arts s'. processVideo demo_processor Map.empty demo_world ''in.mp4'' ''in.mp4'' demo_state =
        (Resolved arts, s') \<and>
      (\<exists>vs t. arts = vs @ [t] \<and> art_type t = thumbnail \<and> (\<forall>v\<in>set vs. art_type v = video) \<and>
         (map part vs = [None] \<or> map part vs = map Some [1..<Suc (length vs)])) \<and>
      map art_name arts = [''in_part1.mp4'', ''in_part2.mp4'', ''in_part3.mp4'', ''in_thumbnail.jpg''])"
proof -
  have h: "maxVideoSizeMB demo_processor \<noteq> 0" by (simp add: demo_processor_def)
  obtain arts s' where ev: "processVideo demo_processor Map.empty demo_world ''in.mp4'' ''in.mp4''
      demo_state = (Resolved arts, s')"
    and names: "map art_name arts =
      [''in_part1.mp4'', ''in_part2.mp4'', ''in_part3.mp4'', ''in_thumbnail.jpg'']"
    using demo_job_result
    by (cases "processVideo demo_processor Map.empty demo_world ''in.mp4'' ''in.mp4'' demo_state")
       simp
  note shape = processVideo_artifacts [OF ev h]
  show ?thesis
  proof (rule conjI)
    show "maxVideoSizeMB demo_processor \<noteq> 0" by (rule h)
    show "\<exists>arts s'. processVideo demo_processor Map.empty demo_world ''in.mp4'' ''in.mp4'' demo_state =
        (Resolved arts, s') \<and>
      (\<exists>vs t. arts = vs @ [t] \<and> art_type t = thumbnail \<and> (\<forall>v\<in>set vs. art_type v = video) \<and>
         (map part vs = [None] \<or> map part vs = map Some [1..<Suc (length vs)])) \<and>
      map art_name arts = [''in_part1.mp4'', ''in_part2.mp4'', ''in_part3.mp4'', ''in_thumbnail.jpg'']"
      by (rule exI [of _ arts], rule exI [of _ s'], intro conjI) (rule ev shape names)+
  qed
qed


subsection \<open>The requested segments\<close>


text \<open>The doubles of the 29 second video in 7 parts.\<close>

lemma fl_0: "fl 0 = 0"
  by (simp add: fl_def)





lemma fl_30: "fl 30 = 30" "fl 60 = 60" "fl 90 = 90"
  by code_simp+


subsection \<open>The calls of a job\<close>

lemma processVideo_ran:
  assumes "processVideo p env w inputPath originalFileName s = (r, s')"
  shows "(\<exists>evs. ran w s evs r s' \<and>
       ((evs = take (length evs) (job_events p env w inputPath originalFileName) \<and>
           (\<forall>arts. r \<noteq> Resolved arts)) \<or>
        (\<exists>rest. evs = job_events p env w inputPath originalFileName @ rest \<and>
           split_events p w (replay w s (job_events p env w inputPath originalFileName))
             (path_join w (outputDir_of env) (path_parse_name w originalFileName @ ''_processed.mp4''))
             (outputDir_of env) (path_parse_name w originalFileName) rest))) \<and>
    (\<forall>e. r = Rejected e \<longrightarrow> (\<exists>m. e = ''Failed to process video: '' @ m))"
proof -
  let ?pp = "path_join w (outputDir_of env) (path_parse_name w originalFileName @ ''_processed.mp4'')"
  let ?J = "job_events p env w inputPath originalFileName"
  let ?sp = "split_events p w (replay w s ?J) ?pp (outputDir_of env) (path_parse_name w originalFileName)"
  let ?D = "\<lambda>(r0 :: artifact list outcome) evs.
        (evs = take (length evs) ?J \<and> (\<forall>arts. r0 \<noteq> Resolved arts)) \<or>
        (\<exists>rest. evs = ?J @ rest \<and> ?sp rest)"
  let ?Q = "\<lambda>(r0 :: artifact list outcome) s0. \<exists>evs. ran w s evs r0 s0 \<and> ?D r0 evs"
  have lenJ: "length ?J = 5" by (simp add: job_events_def)
  have early: "?Q r0 s0"
    if "ran w s (take k ?J) rc s0" "k \<le> 5" "\<forall>arts. r0 \<noteq> Resolved arts"
    for r0 :: "artifact list outcome" and rc :: "'c outcome" and s0 k
  proof -
    from that(1,3) have run: "ran w s (take k ?J) r0 s0" by (rule ran_outcome)
    have "take k ?J = take (length (take k ?J)) ?J" using that(2) lenJ by simp
    with that(3) have "?D r0 (take k ?J)" by (intro disjI1 conjI)
    with run show ?thesis by (intro exI [of _ "take k ?J"] conjI)
  qed
  have late: "?Q r0 s0"
    if "ran w s (?J @ rest) r0 s0" "?sp rest"
    for r0 :: "artifact list outcome" and s0 rest
  proof -
    have "\<exists>resta. ?J @ rest = ?J @ resta \<and> ?sp resta"
      using that(2) by (intro exI [of _ rest] conjI refl)
    then have "?D r0 (?J @ rest)" by (rule disjI2)
    with that(1) show ?thesis by (intro exI [of _ "?J @ rest"] conjI)
  qed
  have body: "?Q r0 s0"
    if b: "andThen (analyzeVideo w inputPath s) (\<lambda>info s1.
        andThen (captureFrame p env w inputPath originalFileName s1) (\<lambda>thumbnailPath s2.
        andThen (compressVideo p env w inputPath originalFileName s2) (\<lambda>processedPath s3.
        andThen (checkAndSplitVideo p env w processedPath originalFileName s3) (\<lambda>processedVideos s4.
        andThen (getFileSize w thumbnailPath s4) (\<lambda>thumbnailSize s5.
          (Resolved
             (processedVideos @
                [\<lparr>art_path = thumbnailPath,
                  art_name = path_parse_name w originalFileName @ ''_thumbnail.jpg'',
                  art_type = thumbnail, art_size = thumbnailSize, part = None,
                  totalParts = None\<rparr>]), s5)))))) = (r0, s0)"
    for r0 :: "artifact list outcome" and s0
    using b
  proof (cases rule: andThen_cases)
    case stopped
    have "analyzeVideo w inputPath s = (fst (analyzeVideo w inputPath s), s0)"
      using stopped(1) by (simp add: prod_eq_iff)
    from analyzeVideo_ran [OF this] have "ran w s (take 1 ?J) (fst (analyzeVideo w inputPath s)) s0"
      by (simp add: job_events_def)
    then show ?thesis using stopped(2) by (intro early [of 1]) simp_all
  next
    case (resolved info s1)
    from analyzeVideo_ran [OF resolved(1)] have
      A: "ran w s (take 1 ?J) (Resolved info) s1" by (simp add: job_events_def)
    have j12: "take 1 ?J @ [EnsureDir (outputDir_of env)] = take 2 ?J"
      "take 1 ?J @ [EnsureDir (outputDir_of env),
        Screenshots inputPath (frameCaptureTime p) (outputDir_of env)
          (path_parse_name w originalFileName @ ''_thumbnail.jpg'')] = take 3 ?J"
      by (simp_all add: job_events_def)
    from resolved(2) show ?thesis
    proof (cases rule: andThen_cases)
      case stopped
      have "captureFrame p env w inputPath originalFileName s1 =
          (fst (captureFrame p env w inputPath originalFileName s1), s0)"
        using stopped(1) by (simp add: prod_eq_iff)
      from captureFrame_ran [OF this] show ?thesis
      proof (elim disjE conjE)
        assume "ran w s1 [EnsureDir (outputDir_of env)]
          (fst (captureFrame p env w inputPath originalFileName s1)) s0"
        from ran_seq [OF A this] show ?thesis
          unfolding j12 using stopped(2) by (intro early [of 2]) simp_all
      next
        assume "ran w s1 [EnsureDir (outputDir_of env),
          Screenshots inputPath (frameCaptureTime p) (outputDir_of env)
            (path_parse_name w originalFileName @ ''_thumbnail.jpg'')]
          (fst (captureFrame p env w inputPath originalFileName s1)) s0"
        from ran_seq [OF A this] show ?thesis
          unfolding j12 using stopped(2) by (intro early [of 3]) simp_all
      qed
    next
      case (resolved thumbnailPath s2)
      from captureFrame_ran [OF resolved(1)] have
        "ran w s1 [EnsureDir (outputDir_of env),
          Screenshots inputPath (frameCaptureTime p) (outputDir_of env)
            (path_parse_name w originalFileName @ ''_thumbnail.jpg'')] (Resolved thumbnailPath) s2"
        by simp
      from ran_seq [OF A this] have B: "ran w s (take 3 ?J) (Resolved thumbnailPath) s2"
        unfolding j12 .
      have j45: "take 3 ?J @ [EnsureDir (outputDir_of env)] = take 4 ?J"
        "take 3 ?J @ [EnsureDir (outputDir_of env), Encode inputPath (preset p) ?pp] = take 5 ?J"
        by (simp_all add: job_events_def)
      from resolved(2) show ?thesis
      proof (cases rule: andThen_cases)
        case stopped
        have c: "compressVideo p env w inputPath originalFileName s2 =
            (fst (compressVideo p env w inputPath originalFileName s2), s0)"
          using stopped(1) by (simp add: prod_eq_iff)
        from compressVideo_ran [OF c, THEN conjunct1] show ?thesis
        proof (elim disjE conjE)
          assume "ran w s2 [EnsureDir (outputDir_of env)]
            (fst (compressVideo p env w inputPath originalFileName s2)) s0"
          from ran_seq [OF B this] show ?thesis
            unfolding j45 using stopped(2) by (intro early [of 4]) simp_all
        next
          assume "ran w s2 [EnsureDir (outputDir_of env), Encode inputPath (preset p) ?pp]
            (fst (compressVideo p env w inputPath originalFileName s2)) s0"
          from ran_seq [OF B this] show ?thesis
            unfolding j45 using stopped(2) by (intro early [of 5]) simp_all
        qed
      next
        case (resolved processedPath s3)
        note cv = compressVideo_ran [OF resolved(1)]
        from cv [THEN conjunct2] have pp: "processedPath = ?pp" by simp
        from cv [THEN conjunct1] have
          "ran w s2 [EnsureDir (outputDir_of env), Encode inputPath (preset p) ?pp]
             (Resolved processedPath) s3" by simp
        from ran_seq [OF B this] have "ran w s (take 5 ?J) (Resolved processedPath) s3"
          unfolding j45 .
        then have C: "ran w s ?J (Resolved processedPath) s3" using lenJ by simp
        then have s3: "s3 = replay w s ?J" by (simp add: ran_def)
        have later: "?Q r0 s0"
          if c: "checkAndSplitVideo p env w ?pp originalFileName s3 = (rc, s0)"
            and nr: "(\<exists>v. rc = Resolved v) \<or> (\<forall>arts. r0 \<noteq> Resolved arts)" for rc
        proof -
          from checkAndSplitVideo_ran [OF c] obtain rest where
            run: "ran w s3 rest rc s0" and
            sp: "split_events p w s3 ?pp (outputDir_of env) (path_parse_name w originalFileName) rest"
            by blast
          from nr run have "ran w s3 rest r0 s0"
            by (elim disjE exE) (simp add: ran_resolved_any, rule ran_outcome)
          from ran_seq [OF C this] sp show ?thesis unfolding s3 by (intro late [of rest])
        qed
        from resolved(2) show ?thesis unfolding pp
        proof (cases rule: andThen_cases)
          case stopped
          have "checkAndSplitVideo p env w ?pp originalFileName s3 =
            (fst (checkAndSplitVideo p env w ?pp originalFileName s3), s0)"
            using stopped(1) by (simp add: prod_eq_iff)
          then show ?thesis using stopped(2) by (intro later) simp_all
        next
          case (resolved processedVideos s4)
          from resolved(2) have "s0 = s4"
          proof (cases rule: andThen_cases)
            case stopped
            then show ?thesis by (simp add: getFileSize_state)
          next
            case (resolved thumbnailSize s5)
            then show ?thesis by (simp add: getFileSize_Resolved)
          qed
          with resolved(1) show ?thesis by (intro later [of "Resolved processedVideos"]) simp_all
        qed
      qed
    qed
  qed
  from assms show ?thesis unfolding processVideo_def
  proof (cases rule: rethrow_cases)
    case passed
    from body [OF passed(1)] passed(2) show ?thesis by simp
  next
    case (wrapped e)
    from body [OF wrapped(1)] have "?Q (Rejected e) s'" .
    then have "?Q r s'" using wrapped(2) by (simp add: ran_def)
    then show ?thesis using wrapped(2) by simp
  qed
qed

text \<open>
  C7, as the code has it. The calls of a job are, in this order: the probe of the input,
  the thumbnail (directory, then capture), the transcoding (directory, then encoder), and
  then the calls of the split step on the transcoded file. Every call but the last has
  succeeded, so a step starts only when the steps before it have completed. A job that
  returns a list has made all of the first five calls, and all its calls have succeeded.
\<close>

theorem processVideo_order:
  assumes "processVideo p env w inputPath originalFileName s = (r, s')"
    and "maxVideoSizeMB p \<noteq> 0"
  shows "\<exists>evs. trace s' = trace s @ evs \<and> all_ok w s (butlast evs) \<and>
     ((\<exists>arts. r = Resolved arts) \<longrightarrow> all_ok w s evs) \<and>
     ((evs = take (length evs)
          [Ffprobe inputPath,
           EnsureDir (outputDir_of env),
           Screenshots inputPath (frameCaptureTime p) (outputDir_of env)
             (path_parse_name w originalFileName @ ''_thumbnail.jpg''),
           EnsureDir (outputDir_of env),
           Encode inputPath (preset p)
             (path_join w (outputDir_of env) (path_parse_name w originalFileName @ ''_processed.mp4''))] \<and>
        (\<forall>arts. r \<noteq> Resolved arts)) \<or>
      (\<exists>rest. evs =
          [Ffprobe inputPath,
           EnsureDir (outputDir_of env),
           Screenshots inputPath (frameCaptureTime p) (outputDir_of env)
             (path_parse_name w originalFileName @ ''_thumbnail.jpg''),
           EnsureDir (outputDir_of env),
           Encode inputPath (preset p)
             (path_join w (outputDir_of env) (path_parse_name w originalFileName @ ''_processed.mp4''))]
          @ rest \<and>
        split_events p w
          (replay w s
             [Ffprobe inputPath,
           EnsureDir (outputDir_of env),
           Screenshots inputPath (frameCaptureTime p) (outputDir_of env)
             (path_parse_name w originalFileName @ ''_thumbnail.jpg''),
           EnsureDir (outputDir_of env),
           Encode inputPath (preset p)
             (path_join w (outputDir_of env) (path_parse_name w originalFileName @ ''_processed.mp4''))])
          (path_join w (outputDir_of env) (path_parse_name w originalFileName @ ''_processed.mp4''))
          (outputDir_of env) (path_parse_name w originalFileName) rest))"
proof -
  from processVideo_ran [OF assms(1), THEN conjunct1] obtain evs where
    run: "ran w s evs r s'" and
    shape: "(evs = take (length evs) (job_events p env w inputPath originalFileName) \<and>
           (\<forall>arts. r \<noteq> Resolved arts)) \<or>
        (\<exists>rest. evs = job_events p env w inputPath originalFileName @ rest \<and>
           split_events p w (replay w s (job_events p env w inputPath originalFileName))
             (path_join w (outputDir_of env) (path_parse_name w originalFileName @ ''_processed.mp4''))
             (outputDir_of env) (path_parse_name w originalFileName) rest)"
    by (elim exE conjE)
  from run have "trace s' = trace s @ evs" by (rule ran_trace)
  moreover from run have "all_ok w s (butlast evs)" "(\<exists>arts. r = Resolved arts) \<longrightarrow> all_ok w s evs"
    by (simp_all add: ran_def)
  ultimately show ?thesis using shape unfolding job_events_def
    by (intro exI [of _ evs] conjI)
qed

text \<open>
  C7 as stated fails: the thumbnail is captured before the transcoding starts.
\<close>

theorem processVideo_order_counterexample:
  "trace (snd (processVideo demo_processor Map.empty demo_world ''in.mp4'' ''in.mp4'' demo_state)) =
     [Ffprobe ''in.mp4'',
      EnsureDir ''temp'',
      Screenshots ''in.mp4'' 2 ''temp'' ''in_thumbnail.jpg'',
      EnsureDir ''temp'',
      Encode ''in.mp4'' default_preset ''temp/in_processed.mp4'',
      Ffprobe ''temp/in_processed.mp4'',
      ExtractSegment ''temp/in_processed.mp4'' ''temp/in_part1.mp4'' (Some 0) (Some 30),
      ExtractSegment ''temp/in_processed.mp4'' ''temp/in_part2.mp4'' (Some 30) (Some 30),
      ExtractSegment ''temp/in_processed.mp4'' ''temp/in_part3.mp4'' (Some 60) (Some 30),
      Remove ''temp/in_processed.mp4'']"
  by (simp add: demo_eval times_time_def divide_time_def parseFloat_def fl_0 fl_30)

theorem processVideo_order_witness:
  "maxVideoSizeMB demo_processor \<noteq> 0 \<and>
   (\<exists>rest. trace (snd (processVideo demo_processor Map.empty demo_world ''in.mp4'' ''in.mp4''
        demo_state)) =
      trace demo_state @
        [Ffprobe ''in.mp4'',
         EnsureDir ''temp'',
         Screenshots ''in.mp4'' 2 ''temp'' ''in_thumbnail.jpg'',
         EnsureDir ''temp'',
         Encode ''in.mp4'' default_preset ''temp/in_processed.mp4''] @ rest \<and>
      all_ok demo_world demo_state
        ([Ffprobe ''in.mp4'',
         EnsureDir ''temp'',
         Screenshots ''in.mp4'' 2 ''temp'' ''in_thumbnail.jpg'',
         EnsureDir ''temp'',
         Encode ''in.mp4'' default_preset ''temp/in_processed.mp4''] @ rest) \<and>
      split_events demo_processor demo_world
        (replay demo_world demo_state
           [Ffprobe ''in.mp4'',
         EnsureDir ''temp'',
         Screenshots ''in.mp4'' 2 ''temp'' ''in_thumbnail.jpg'',
         EnsureDir ''temp'',
         Encode ''in.mp4'' default_preset ''temp/in_processed.mp4''])
        ''temp/in_processed.mp4'' ''temp'' ''in'' rest)"
proof -
  have h: "maxVideoSizeMB demo_processor \<noteq> 0" by (simp add: demo_processor_def)
  let ?run = "processVideo demo_processor Map.empty demo_world ''in.mp4'' ''in.mp4'' demo_state"
  let ?five = "[Ffprobe ''in.mp4'',
         EnsureDir ''temp'',
         Screenshots ''in.mp4'' 2 ''temp'' ''in_thumbnail.jpg'',
         EnsureDir ''temp'',
         Encode ''in.mp4'' default_preset ''temp/in_processed.mp4'']"
  have res: "\<exists>arts. fst ?run = Resolved arts" using demo_job_result by simp
  have v: "outputDir_of Map.empty = ''temp''" "path_parse_name demo_world ''in.mp4'' = ''in''"
    "frameCaptureTime demo_processor = 2" "preset demo_processor = default_preset"
    "path_join demo_world ''temp'' (''in'' @ ''_processed.mp4'') = ''temp/in_processed.mp4''"
    "''in'' @ ''_thumbnail.jpg'' = ''in_thumbnail.jpg''"
    by (simp_all add: outputDir_of_def or_string_def demo_world_def demo_processor_def)
  from res obtain arts where arts: "fst ?run = Resolved arts" by (rule exE)
  from processVideo_order [where p = demo_processor and env = Map.empty and w = demo_world and
      inputPath = "''in.mp4''" and originalFileName = "''in.mp4''" and s = demo_state,
      OF surjective_pairing h]
  obtain evs where tr: "trace (snd ?run) = trace demo_state @ evs" and
    ok: "(\<exists>arts. fst ?run = Resolved arts) \<longrightarrow> all_ok demo_world demo_state evs" and
    alt: "(evs = take (length evs) ?five \<and> (\<forall>arts. fst ?run \<noteq> Resolved arts)) \<or>
    (\<exists>rest. evs = ?five @ rest \<and>
      split_events demo_processor demo_world (replay demo_world demo_state ?five)
        ''temp/in_processed.mp4'' ''temp'' ''in'' rest)"
    unfolding v by (elim exE conjE)
  from alt arts obtain rest where
    rest: "evs = ?five @ rest"
      "split_events demo_processor demo_world (replay demo_world demo_state ?five)
        ''temp/in_processed.mp4'' ''temp'' ''in'' rest"
    by (elim disjE conjE exE) simp_all
  from ok res have "all_ok demo_world demo_state evs" by (rule mp)
  with tr rest have "trace (snd ?run) = trace demo_state @ ?five @ rest \<and>
      all_ok demo_world demo_state (?five @ rest) \<and>
      split_events demo_processor demo_world (replay demo_world demo_state ?five)
        ''temp/in_processed.mp4'' ''temp'' ''in'' rest"
    by simp
  then have "\<exists>rest. trace (snd ?run) = trace demo_state @ ?five @ rest \<and>
      all_ok demo_world demo_state (?five @ rest) \<and>
      split_events demo_processor demo_world (replay demo_world demo_state ?five)
        ''temp/in_processed.mp4'' ''temp'' ''in'' rest"
    by (rule exI)
  with h show ?thesis by (rule conjI)
qed

subsection \<open>Files after a job\<close>

lemma remove_in_job_events: "Remove f \<notin> set (job_events p env w inputPath originalFileName)"
  by (simp add: job_events_def)

lemma remove_in_segments:
  "Remove f \<notin> set (map (segment_event w videoPath outputDir baseName dpp) js)"
  by (auto simp: segment_event_def)

text \<open>
  C2, as the code has it. \<open>processVideo\<close> has no cleanup: on a failure the error is
  wrapped (\<open>Failed to process video: ...\<close>) and thrown. The file system after a job,
  whatever its outcome, is what the calls of the job made of it and nothing else. The only
  removal among them is that of the transcoded file, as the last call and after the
  requests for all the parts have succeeded. So a file that is there at any moment of the
  job is still there at its end, unless that removal follows.
\<close>

theorem processVideo_no_cleanup:
  assumes "processVideo p env w inputPath originalFileName s = (r, s')"
    and "maxVideoSizeMB p \<noteq> 0"
  shows "\<exists>evs. trace s' = trace s @ evs \<and> s' = replay w s evs \<and> all_ok w s (butlast evs) \<and>
     (\<forall>f. Remove f \<in> set evs \<longrightarrow>
        f = path_join w (outputDir_of env) (path_parse_name w originalFileName @ ''_processed.mp4'') \<and>
        (\<exists>sz dpp. files (replay w s (job_events p env w inputPath originalFileName)) f = Some sz \<and>
           evs = job_events p env w inputPath originalFileName @
             Ffprobe f #
             map (segment_event w f (outputDir_of env) (path_parse_name w originalFileName) dpp)
               [0..<nat \<lceil>(of_nat sz :: rat) / (1024 * 1024) / of_int (maxVideoSizeMB p)\<rceil>] @
             [Remove f])) \<and>
     (\<forall>evs1 evs2. evs = evs1 @ evs2 \<longrightarrow> (\<forall>f. Remove f \<notin> set evs2) \<longrightarrow>
        dom (files (replay w s evs1)) \<subseteq> dom (files s')) \<and>
     (\<forall>e. r = Rejected e \<longrightarrow> (\<exists>m. e = ''Failed to process video: '' @ m))"
proof -
  let ?pp = "path_join w (outputDir_of env) (path_parse_name w originalFileName @ ''_processed.mp4'')"
  let ?J = "job_events p env w inputPath originalFileName"
  let ?seg = "segment_event w ?pp (outputDir_of env) (path_parse_name w originalFileName)"
  note pr = processVideo_ran [OF assms(1)]
  note msg = pr [THEN conjunct2]
  from pr [THEN conjunct1] obtain evs where
    run: "ran w s evs r s'" and
    shape: "(evs = take (length evs) ?J \<and> (\<forall>arts. r \<noteq> Resolved arts)) \<or>
        (\<exists>rest. evs = ?J @ rest \<and>
           split_events p w (replay w s ?J) ?pp (outputDir_of env)
             (path_parse_name w originalFileName) rest)"
    by (elim exE conjE)
  from run have tr: "trace s' = trace s @ evs" by (rule ran_trace)
  from run have rp: "s' = replay w s evs" and ok: "all_ok w s (butlast evs)"
    by (simp_all add: ran_def)
  have rm: "\<forall>f. Remove f \<in> set evs \<longrightarrow> f = ?pp \<and>
        (\<exists>sz dpp. files (replay w s ?J) f = Some sz \<and>
           evs = ?J @ Ffprobe f #
             map (segment_event w f (outputDir_of env) (path_parse_name w originalFileName) dpp)
               [0..<nat \<lceil>(of_nat sz :: rat) / (1024 * 1024) / of_int (maxVideoSizeMB p)\<rceil>] @
             [Remove f])"
  proof (intro allI impI)
    fix f assume f: "Remove f \<in> set evs"
    from shape show "f = ?pp \<and>
        (\<exists>sz dpp. files (replay w s ?J) f = Some sz \<and>
           evs = ?J @ Ffprobe f #
             map (segment_event w f (outputDir_of env) (path_parse_name w originalFileName) dpp)
               [0..<nat \<lceil>(of_nat sz :: rat) / (1024 * 1024) / of_int (maxVideoSizeMB p)\<rceil>] @
             [Remove f])"
    proof
      assume "evs = take (length evs) ?J \<and> (\<forall>arts. r \<noteq> Resolved arts)"
      then have "evs = take (length evs) ?J" by (rule conjunct1)
      then have "set evs = set (take (length evs) ?J)" by (rule arg_cong)
      moreover have "set (take (length evs) ?J) \<subseteq> set ?J" by (rule set_take_subset)
      ultimately have "Remove f \<in> set ?J" using f by (simp only: subsetD)
      with remove_in_job_events [of f p env w inputPath originalFileName] show ?thesis
        by (rule notE)
    next
      assume "\<exists>rest. evs = ?J @ rest \<and>
           split_events p w (replay w s ?J) ?pp (outputDir_of env)
             (path_parse_name w originalFileName) rest"
      then obtain rest where rest: "evs = ?J @ rest"
        "split_events p w (replay w s ?J) ?pp (outputDir_of env)
             (path_parse_name w originalFileName) rest"
        by (elim exE conjE)
      from f rest(1) remove_in_job_events [of f p env w inputPath originalFileName]
      have fr: "Remove f \<in> set rest" by simp
      then have "rest \<noteq> []" by auto
      with rest(2) obtain dpp j tl where
        r2: "rest = Ffprobe ?pp # map (?seg dpp) [0..<j] @ tl" and
        tl: "tl = [] \<or> tl = [Remove ?pp] \<and>
         (\<exists>sz. files (replay w s ?J) ?pp = Some sz \<and>
            j = nat \<lceil>(of_nat sz :: rat) / (1024 * 1024) / of_int (maxVideoSizeMB p)\<rceil>)"
        unfolding split_events_def by blast
      from fr r2 remove_in_segments [of f w ?pp "outputDir_of env" "path_parse_name w originalFileName"
          dpp "[0..<j]"]
      have ftl: "Remove f \<in> set tl" by simp
      with tl obtain sz where t2: "tl = [Remove ?pp]" and
        sz: "files (replay w s ?J) ?pp = Some sz"
          "j = nat \<lceil>(of_nat sz :: rat) / (1024 * 1024) / of_int (maxVideoSizeMB p)\<rceil>"
        by auto
      from ftl t2 have fp: "f = ?pp" by simp
      from rest(1) r2 t2 sz(2) have "evs = ?J @ Ffprobe ?pp #
             map (?seg dpp)
               [0..<nat \<lceil>(of_nat sz :: rat) / (1024 * 1024) / of_int (maxVideoSizeMB p)\<rceil>] @
             [Remove ?pp]" by simp
      with sz(1) show ?thesis unfolding fp by (intro conjI refl exI [of _ sz] exI [of _ dpp])
    qed
  qed
  have keep: "\<forall>evs1 evs2. evs = evs1 @ evs2 \<longrightarrow> (\<forall>f. Remove f \<notin> set evs2) \<longrightarrow>
        dom (files (replay w s evs1)) \<subseteq> dom (files s')"
  proof (intro allI impI)
    fix evs1 evs2 assume e: "evs = evs1 @ evs2" and n: "\<forall>f. Remove f \<notin> set evs2"
    from rp e have "s' = replay w (replay w s evs1) evs2" by (simp add: replay_append)
    with dom_replay [OF n, of "replay w s evs1" w] show "dom (files (replay w s evs1)) \<subseteq> dom (files s')"
      by simp
  qed
  from tr rp ok rm keep msg show ?thesis by (intro exI [of _ evs] conjI)
qed

text \<open>
  C2 as stated fails: when the encoder fails, the thumbnail that the job has written is
  still on the file system when the error reaches the caller.
\<close>

theorem processVideo_cleanup_counterexample:
  "fst (processVideo demo_processor Map.empty failing_world ''in.mp4'' ''in.mp4'' demo_state) =
     Rejected ''Failed to process video: Failed to compress video: ffmpeg exited with code 1'' \<and>
   files (snd (processVideo demo_processor Map.empty failing_world ''in.mp4'' ''in.mp4'' demo_state))
     ''temp/in_thumbnail.jpg'' = Some 20000 \<and>
   files demo_state ''temp/in_thumbnail.jpg'' = None"
  by (simp add: demo_eval failing_world_def)

theorem processVideo_no_cleanup_witness:
  "maxVideoSizeMB demo_processor \<noteq> 0 \<and>
   fst (processVideo demo_processor Map.empty failing_world ''in.mp4'' ''in.mp4'' demo_state) =
     Rejected ''Failed to process video: Failed to compress video: ffmpeg exited with code 1'' \<and>
   ''temp/in_thumbnail.jpg'' \<in> dom (files (replay failing_world demo_state
      [Ffprobe ''in.mp4'', EnsureDir ''temp'',
       Screenshots ''in.mp4'' 2 ''temp'' ''in_thumbnail.jpg''])) \<and>
   ''temp/in_thumbnail.jpg'' \<in> dom (files (snd (processVideo demo_processor Map.empty failing_world
      ''in.mp4'' ''in.mp4'' demo_state)))"
proof -
  let ?run = "processVideo demo_processor Map.empty failing_world ''in.mp4'' ''in.mp4'' demo_state"
  let ?evs1 = "[Ffprobe ''in.mp4'', EnsureDir ''temp'',
       Screenshots ''in.mp4'' 2 ''temp'' ''in_thumbnail.jpg'']"
  let ?evs2 = "[EnsureDir ''temp'', Encode ''in.mp4'' default_preset ''temp/in_processed.mp4'']"
  have h: "maxVideoSizeMB demo_processor \<noteq> 0" by (simp add: demo_processor_def)
  have c: "fst ?run =
     Rejected ''Failed to process video: Failed to compress video: ffmpeg exited with code 1''"
    by (simp add: demo_eval failing_world_def)
  have trace: "trace (snd ?run) = ?evs1 @ ?evs2"
    by (simp add: demo_eval failing_world_def)
  have before: "''temp/in_thumbnail.jpg'' \<in> dom (files (replay failing_world demo_state ?evs1))"
    by (simp add: failing_world_def demo_world_def demo_state_def write_file_def emit_def)
  have none: "\<forall>f. Remove f \<notin> set ?evs2" by simp
  from processVideo_no_cleanup [where p = demo_processor and env = Map.empty and
      w = failing_world and inputPath = "''in.mp4''" and originalFileName = "''in.mp4''" and
      s = demo_state, OF surjective_pairing h]
  obtain evs where tr: "trace (snd ?run) = trace demo_state @ evs" and
    keep: "\<forall>evs1 evs2. evs = evs1 @ evs2 \<longrightarrow> (\<forall>f. Remove f \<notin> set evs2) \<longrightarrow>
        dom (files (replay failing_world demo_state evs1)) \<subseteq> dom (files (snd ?run))"
    by (elim exE conjE)
  from tr trace have "evs = ?evs1 @ ?evs2" by (simp add: demo_state_def)
  from keep [rule_format, OF this none [rule_format]]
  have "dom (files (replay failing_world demo_state ?evs1)) \<subseteq> dom (files (snd ?run))" .
  with before have "''temp/in_thumbnail.jpg'' \<in> dom (files (snd ?run))" by (rule subsetD [rotated])
  with h c before show ?thesis by (intro conjI)
qed

end
